theory Spec2Isabelle
  imports Main
begin

section \<open>Errors\<close>

text \<open>
  Every exception the modelled code raises (or lets through from a library call) is a
  value of this type. \<open>IOError\<close> carries the errno of the failed system call.
\<close>

datatype errno = ENOENT | EISDIR | EACCES | EEXIST | ENOTDIR

datatype error =
    ArcanaNameError string
  | ArcanaMissingDataException
  | ArcanaInsufficientRepoDepthError
  | ArcanaNoDirectXnatMountException
  | ArcanaEmptyDatasetError
  | ArcanaError
  | AssertionError
  | AttributeError
  | IOError errno
  | KeyError string
  | TypeError
  | ValueError

section \<open>DataStore: reentrant connection handling (arcana/core/data/store.py)\<close>

text \<open>
  A store carries the private counter \<open>_connection_depth\<close> (a Python int, initially 0).
  \<open>connect\<close> and \<open>disconnect\<close> are empty in the base class and overridden by the
  backends; they are parameters here, acting on the backend's own state \<open>session\<close>.
  Each call of either is recorded in \<open>calls\<close>, so that the number and order of the
  calls can be stated. A backend whose \<open>connect\<close> raises opens no acquisition; that is
  outside this model.
\<close>

datatype call = Connect | Disconnect

record 'c data_store =
  connection_depth :: int
  session :: 'c
  calls :: "call list"

definition connect :: "('c \<Rightarrow> 'c) \<Rightarrow> 'c data_store \<Rightarrow> 'c data_store" where
  "connect conn s = s\<lparr>session := conn (session s), calls := calls s @ [Connect]\<rparr>"

definition disconnect :: "('c \<Rightarrow> 'c) \<Rightarrow> 'c data_store \<Rightarrow> 'c data_store" where
  "disconnect disc s = s\<lparr>session := disc (session s), calls := calls s @ [Disconnect]\<rparr>"

text \<open>
  \<^verbatim>\<open>__enter__\<close>: connect when the depth is 0, then increment the depth.
  \<^verbatim>\<open>__exit__\<close>: decrement the depth, then disconnect when it has reached 0.
\<close>

definition enter :: "('c \<Rightarrow> 'c) \<Rightarrow> 'c data_store \<Rightarrow> 'c data_store" where
  "enter conn s =
     (let s1 = (if connection_depth s = 0 then connect conn s else s)
      in s1\<lparr>connection_depth := connection_depth s1 + 1\<rparr>)"

definition exit :: "('c \<Rightarrow> 'c) \<Rightarrow> 'c data_store \<Rightarrow> 'c data_store" where
  "exit disc s =
     (let s1 = s\<lparr>connection_depth := connection_depth s - 1\<rparr>
      in if connection_depth s1 = 0 then disconnect disc s1 else s1)"

section \<open>DataStore.save: the registry of saved store configurations\<close>

text \<open>
  The configuration file \<^verbatim>\<open>stores.yml\<close> is \<open>None\<close> when it does not exist and otherwise
  holds the dictionary of saved entries. \<open>singletons\<close> is the dictionary of built-in
  stores by alias; \<open>serialise\<close> (of \<^verbatim>\<open>arcana.core.utils\<close>) is a parameter that may raise.
  The result is the exception raised, if any, with the store and the file afterwards.
\<close>

type_synonym 'cfg config_file = "(string \<rightharpoonup> 'cfg) option"

definition load_saved_entries :: "'cfg config_file \<Rightarrow> (string \<rightharpoonup> 'cfg)" where
  "load_saved_entries f = (case f of Some entries \<Rightarrow> entries | None \<Rightarrow> Map.empty)"

definition save_entries :: "(string \<rightharpoonup> 'cfg) \<Rightarrow> 'cfg config_file" where
  "save_entries entries = Some entries"

definition save ::
  "(string \<rightharpoonup> 'i) \<Rightarrow> ('c data_store \<Rightarrow> error + 'cfg) \<Rightarrow> ('c \<Rightarrow> 'c) \<Rightarrow> ('c \<Rightarrow> 'c) \<Rightarrow>
   string \<Rightarrow> 'c data_store \<times> 'cfg config_file \<Rightarrow>
   error option \<times> 'c data_store \<times> 'cfg config_file" where
  "save singletons serialise conn disc name st =
     (case st of (store, file) \<Rightarrow>
        if name \<in> dom singletons then (Some (ArcanaNameError name), store, file)
        else
          let entries = load_saved_entries file;
              store1 = enter conn store
          in (case serialise store1 of
                Inl e \<Rightarrow> (Some e, exit disc store1, file)
              | Inr cfg \<Rightarrow>
                  (None, exit disc store1, save_entries (entries(name \<mapsto> cfg)))))"

section \<open>Python strings and paths\<close>

text \<open>
  \<^verbatim>\<open>str.startswith\<close>, \<^verbatim>\<open>str.endswith\<close> and \<^verbatim>\<open>str(x)\<close> for an identifier that is a
  string or \<^verbatim>\<open>None\<close>.
\<close>

definition startswith :: "string \<Rightarrow> string \<Rightarrow> bool" where
  "startswith s p = (take (length p) s = p)"

definition endswith :: "string \<Rightarrow> string \<Rightarrow> bool" where
  "endswith s p = (length p \<le> length s \<and> drop (length s - length p) s = p)"

definition py_str :: "string option \<Rightarrow> string" where
  "py_str x = (case x of None \<Rightarrow> ''None'' | Some s \<Rightarrow> s)"

text \<open>
  \<^verbatim>\<open>os.path.join\<close> (posixpath): a component that starts with a slash discards what was
  joined before it; otherwise it is appended, after a slash unless the path so far is
  empty or already ends with one.
\<close>

definition join2 :: "string \<Rightarrow> string \<Rightarrow> string" where
  "join2 path b =
     (if startswith b ''/'' then b
      else if path = [] \<or> endswith path ''/'' then path @ b
      else path @ ''/'' @ b)"

definition op_join :: "string \<Rightarrow> string list \<Rightarrow> string" where
  "op_join a p = foldl join2 a p"


section \<open>JSON documents\<close>

text \<open>
  The values \<^verbatim>\<open>json.load\<close> returns and \<^verbatim>\<open>json.dump\<close> accepts (floats left out). A
  Python dict is an association list in insertion order with distinct keys:
  \<open>dict_get\<close> is \<^verbatim>\<open>d.get(k)\<close>, \<open>dict_set\<close> is \<^verbatim>\<open>d[k] = v\<close>.
\<close>

datatype jvalue =
    JNull
  | JBool bool
  | JInt int
  | JStr string
  | JList "jvalue list"
  | JDict "(string \<times> jvalue) list"

definition dict_get :: "(string \<times> 'v) list \<Rightarrow> string \<Rightarrow> 'v option" where
  "dict_get d k = map_of d k"

fun dict_set :: "(string \<times> 'v) list \<Rightarrow> string \<Rightarrow> 'v \<Rightarrow> (string \<times> 'v) list" where
  "dict_set [] k v = [(k, v)]"
| "dict_set ((k', v') # d) k v =
     (if k' = k then (k, v) # d else (k', v') # dict_set d k v)"

text \<open>\<^verbatim>\<open>list(x)\<close> and iteration over a JSON value; a value that is not iterable raises.\<close>

definition py_iter :: "jvalue \<Rightarrow> error + jvalue list" where
  "py_iter v =
     (case v of
        JList vs \<Rightarrow> Inr vs
      | JStr s \<Rightarrow> Inr (map (\<lambda>c. JStr [c]) s)
      | JDict d \<Rightarrow> Inr (map (\<lambda>kv. JStr (fst kv)) d)
      | _ \<Rightarrow> Inl TypeError)"

text \<open>\<^verbatim>\<open>[f(v) for v in vs]\<close> where \<open>f\<close> may raise: the first exception ends the loop.\<close>

fun map_raise :: "('a \<Rightarrow> error + 'b) \<Rightarrow> 'a list \<Rightarrow> error + 'b list" where
  "map_raise f [] = Inr []"
| "map_raise f (x # xs) =
     (case f x of
        Inl e \<Rightarrow> Inl e
      | Inr y \<Rightarrow> (case map_raise f xs of Inl e \<Rightarrow> Inl e | Inr ys \<Rightarrow> Inr (y # ys)))"

section \<open>The file system seen by FileSystemDir\<close>

text \<open>
  A path names a directory, a file whose content is the JSON text of a value
  (\<open>File (Some v)\<close>), a file with other content (\<open>File None\<close>), or nothing. Paths are
  compared as strings. \<open>trace\<close> records the system calls and lock operations in order.
\<close>

datatype fnode = Dir | File "jvalue option"

datatype event =
    Makedirs string
  | Acquire string
  | Release string
  | ReadFile string
  | WriteFile string

record world =
  files :: "string \<rightharpoonup> fnode"
  trace :: "event list"

definition op_exists :: "world \<Rightarrow> string \<Rightarrow> bool" where
  "op_exists w p = (files w p \<noteq> None)"

definition ancestors :: "string \<Rightarrow> string list" where
  "ancestors p = map (\<lambda>n. take n p) (filter (\<lambda>n. p ! n = CHR ''/'') [1..<length p])"

definition is_file :: "fnode option \<Rightarrow> bool" where
  "is_file x = (case x of Some (File c) \<Rightarrow> True | _ \<Rightarrow> False)"

text \<open>
  \<^verbatim>\<open>os.makedirs(p)\<close>: the leaf must not exist, no ancestor may be a file; the leaf and
  the missing ancestors become directories.
\<close>

definition makedirs :: "string \<Rightarrow> world \<Rightarrow> error option \<times> world" where
  "makedirs p w =
     (if files w p \<noteq> None then (Some (IOError EEXIST), w)
      else if list_ex (\<lambda>q. is_file (files w q)) (ancestors p) then (Some (IOError ENOTDIR), w)
      else (None,
            w\<lparr>files := (\<lambda>q. if q \<in> set (ancestors p @ [p]) \<and> files w q = None
                              then Some Dir else files w q),
              trace := trace w @ [Makedirs p]\<rparr>))"

text \<open>
  Opening a path walks its ancestors from the root: the first one that is not a
  directory makes the call fail, with \<^verbatim>\<open>ENOENT\<close> when it does not exist and \<^verbatim>\<open>ENOTDIR\<close>
  when it is a regular file.
\<close>

definition lookup_error :: "world \<Rightarrow> string \<Rightarrow> errno option" where
  "lookup_error w p =
     (case find (\<lambda>q. files w q \<noteq> Some Dir) (ancestors p) of
        None \<Rightarrow> None
      | Some q \<Rightarrow> (if files w q = None then Some ENOENT else Some ENOTDIR))"

text \<open>\<^verbatim>\<open>open(p, 'r')\<close> followed by \<^verbatim>\<open>json.load\<close>.\<close>

definition read_json :: "string \<Rightarrow> world \<Rightarrow> (error + jvalue) \<times> world" where
  "read_json p w =
     (case lookup_error w p of
        Some n \<Rightarrow> (Inl (IOError n), w)
      | None \<Rightarrow>
          (case files w p of
             None \<Rightarrow> (Inl (IOError ENOENT), w)
           | Some Dir \<Rightarrow> (Inl (IOError EISDIR), w)
           | Some (File None) \<Rightarrow> (Inl ValueError, w\<lparr>trace := trace w @ [ReadFile p]\<rparr>)
           | Some (File (Some v)) \<Rightarrow> (Inr v, w\<lparr>trace := trace w @ [ReadFile p]\<rparr>)))"

text \<open>
  \<^verbatim>\<open>open(p, 'w')\<close> followed by \<^verbatim>\<open>json.dump\<close>: the directory of the file must exist, and
  the path must not be a directory.
\<close>

definition write_json :: "string \<Rightarrow> jvalue \<Rightarrow> world \<Rightarrow> error option \<times> world" where
  "write_json p v w =
     (case lookup_error w p of
        Some n \<Rightarrow> (Some (IOError n), w)
      | None \<Rightarrow>
          (case files w p of
             Some Dir \<Rightarrow> (Some (IOError EISDIR), w)
           | _ \<Rightarrow> (None, w\<lparr>files := (files w)(p \<mapsto> File (Some v)),
                            trace := trace w @ [WriteFile p]\<rparr>)))"

text \<open>
  \<^verbatim>\<open>os.path.dirname\<close>: the path up to its last slash, without the slashes at its end
  unless it consists of slashes only.
\<close>

definition dirname :: "string \<Rightarrow> string" where
  "dirname p =
     (let head = rev (dropWhile (\<lambda>c. c \<noteq> CHR ''/'') (rev p))
      in if head \<noteq> [] \<and> \<not> list_all (\<lambda>c. c = CHR ''/'') head
         then rev (dropWhile (\<lambda>c. c = CHR ''/'') (rev head))
         else head)"

text \<open>
  Entering \<^verbatim>\<open>with InterProcessLock(l)\<close> (the \<^verbatim>\<open>fasteners\<close> library): the directory of the
  lock file is created with \<^verbatim>\<open>os.makedirs\<close> unless it is there, which raises when that
  path or one above it is a regular file; then the lock file is opened for appending,
  which raises when a path above it is not a directory or when it is a directory
  itself, and creates the file when absent; then the lock is taken. The model is of
  one process, so the lock is free. Leaving the block releases the lock and keeps the
  lock file.
\<close>

definition acquire :: "string \<Rightarrow> world \<Rightarrow> error option \<times> world" where
  "acquire l w =
     (let b = dirname l
      in case (if b = [] \<or> files w b = Some Dir then (None, w) else makedirs b w) of
           (Some e, w1) \<Rightarrow> (Some e, w)
         | (None, w1) \<Rightarrow>
             (case lookup_error w1 l of
                Some n \<Rightarrow> (Some (IOError n), w\<lparr>files := files w1\<rparr>)
              | None \<Rightarrow>
                  (case files w1 l of
                     Some Dir \<Rightarrow> (Some (IOError EISDIR), w\<lparr>files := files w1\<rparr>)
                   | Some (File c) \<Rightarrow>
                       (None, w\<lparr>files := files w1, trace := trace w @ [Acquire l]\<rparr>)
                   | None \<Rightarrow>
                       (None, w\<lparr>files := (files w1)(l \<mapsto> File None),
                                trace := trace w @ [Acquire l]\<rparr>))))"

definition release :: "string \<Rightarrow> world \<Rightarrow> world" where
  "release l w = w\<lparr>trace := trace w @ [Release l]\<rparr>"

section \<open>FileSystemDir (arcana2/data/repository/file_system_dir.py)\<close>

definition SUMMARY_NAME :: string where
  "SUMMARY_NAME = ''__ALL__''"

definition FIELDS_FNAME :: string where
  "FIELDS_FNAME = ''fields.json''"

definition PROV_DIR :: string where
  "PROV_DIR = ''__prov__''"

definition LOCK_SUFFIX :: string where
  "LOCK_SUFFIX = ''.lock''"

text \<open>
  The dataset an item belongs to: \<open>ds_name\<close> is \<^verbatim>\<open>dataset.name\<close> (the root directory),
  \<open>depth\<close> its configured depth, and the two identifier maps are methods of the Dataset
  class, taken as they are. An identifier is a string or \<^verbatim>\<open>None\<close>.
\<close>

record dataset =
  ds_name :: string
  depth :: int
  inv_map_subject_id :: "string option \<Rightarrow> string option"
  inv_map_timepoint_id :: "string option \<Rightarrow> string option"

record item =
  item_dataset :: dataset
  tree_level :: string
  subject_id :: "string option"
  timepoint_id :: "string option"
  namespace :: "string option"
  fname :: string
  derived :: bool

text \<open>
  A field: its name, value, whether it is array-valued, and \<open>dtype\<close>, the Python
  callable that converts a loaded value (it may raise).
\<close>

record field = item +
  field_name :: string
  field_value :: jvalue
  array :: bool
  dtype :: "jvalue \<Rightarrow> error + jvalue"

text \<open>
  A file-group: \<open>fg_path\<close> is the attribute \<^verbatim>\<open>_path\<close> (\<open>None\<close> until set), \<open>aux_files\<close> the
  side-cars it holds, and \<open>default_aux_file_paths\<close> the method of its format that names
  the side-cars of a primary path.
\<close>

record file_group = item +
  fg_path :: "string option"
  aux_files :: "(string \<times> string) list"
  default_aux_file_paths :: "string \<Rightarrow> (string \<times> string) list"

text \<open>
  The chain on \<^verbatim>\<open>item.tree_level\<close> (lines 323 to 345): the subject and timepoint
  directory names, or the exception raised.
\<close>

definition level_dirs ::
  "string \<Rightarrow> int \<Rightarrow> string option \<Rightarrow> string option \<Rightarrow> error + string \<times> string" where
  "level_dirs lvl d subject timepoint =
     (if lvl = ''per_dataset'' then Inr (SUMMARY_NAME, SUMMARY_NAME)
      else if startswith lvl ''per_subject'' then
        (if d < 2 then Inl ArcanaInsufficientRepoDepthError
         else Inr (py_str subject, SUMMARY_NAME))
      else if startswith lvl ''per_timepoint'' then
        (if d < 1 then Inl ArcanaInsufficientRepoDepthError
         else Inr (SUMMARY_NAME, py_str timepoint))
      else if startswith lvl ''per_session'' then Inr (py_str subject, py_str timepoint)
      else Inl AssertionError)"

text \<open>The chain on \<^verbatim>\<open>depth\<close> (lines 346 to 353).\<close>

definition acq_dir :: "string \<Rightarrow> int \<Rightarrow> string \<Rightarrow> string \<Rightarrow> error + string" where
  "acq_dir root d subj_dir timepoint_dir =
     (if d = 2 then Inr (op_join root [subj_dir, timepoint_dir])
      else if d = 1 then Inr (op_join root [subj_dir])
      else if d = 0 then Inr root
      else Inl AssertionError)"

definition file_group_path ::
  "'a item_scheme \<Rightarrow> dataset option \<Rightarrow> string option \<Rightarrow> world \<Rightarrow> (error + string) \<times> world" where
  "file_group_path it dataset_arg fname_arg w =
     (let fnm = (case fname_arg of None \<Rightarrow> fname it | Some f \<Rightarrow> f);
          ds = (case dataset_arg of None \<Rightarrow> item_dataset it | Some d \<Rightarrow> d);
          root_dir = ds_name ds;
          subject = inv_map_subject_id ds (subject_id it);
          timepoint = inv_map_timepoint_id ds (timepoint_id it)
      in case level_dirs (tree_level it) (depth ds) subject timepoint of
           Inl e \<Rightarrow> (Inl e, w)
         | Inr (subj_dir, timepoint_dir) \<Rightarrow>
             (case acq_dir root_dir (depth ds) subj_dir timepoint_dir of
                Inl e \<Rightarrow> (Inl e, w)
              | Inr acq \<Rightarrow>
                  let sess_dir = (case namespace it of None \<Rightarrow> acq
                                  | Some ns \<Rightarrow> op_join acq [ns])
                  in if derived it \<and> \<not> op_exists w sess_dir then
                       (case makedirs sess_dir w of
                          (Some e, w') \<Rightarrow> (Inl e, w')
                        | (None, w') \<Rightarrow> (Inr (op_join sess_dir [fnm]), w'))
                     else (Inr (op_join sess_dir [fnm]), w)))"

definition fields_json_path ::
  "'a item_scheme \<Rightarrow> dataset option \<Rightarrow> world \<Rightarrow> (error + string) \<times> world" where
  "fields_json_path fld dataset_arg w = file_group_path fld dataset_arg (Some FIELDS_FNAME) w"



text \<open>
  The handler of \<^verbatim>\<open>get_field\<close>: a \<^verbatim>\<open>KeyError\<close> (which has no \<^verbatim>\<open>errno\<close>) and an
  \<^verbatim>\<open>IOError\<close> with errno \<^verbatim>\<open>ENOENT\<close> become the missing-data error, another \<^verbatim>\<open>IOError\<close>
  is raised again, and any other exception is not caught.
\<close>

definition get_field_handler :: "error \<Rightarrow> error" where
  "get_field_handler e =
     (case e of
        KeyError k \<Rightarrow> ArcanaMissingDataException
      | IOError n \<Rightarrow> (if n \<noteq> ENOENT then IOError n else ArcanaMissingDataException)
      | _ \<Rightarrow> e)"

text \<open>\<^verbatim>\<open>dct[name]\<close> on a loaded document.\<close>

definition subscript :: "jvalue \<Rightarrow> string \<Rightarrow> error + jvalue" where
  "subscript doc k =
     (case doc of
        JDict d \<Rightarrow> (case dict_get d k of None \<Rightarrow> Inl (KeyError k) | Some v \<Rightarrow> Inr v)
      | _ \<Rightarrow> Inl TypeError)"

definition convert :: "'a field_scheme \<Rightarrow> jvalue \<Rightarrow> error + jvalue" where
  "convert fld val =
     (if array fld then
        (case py_iter val of
           Inl e \<Rightarrow> Inl e
         | Inr vs \<Rightarrow> (case map_raise (dtype fld) vs of Inl e \<Rightarrow> Inl e | Inr us \<Rightarrow> Inr (JList us)))
      else dtype fld val)"

definition get_field :: "'a field_scheme \<Rightarrow> world \<Rightarrow> (error + jvalue) \<times> world" where
  "get_field fld w =
     (case fields_json_path fld None w of
        (Inl e, w1) \<Rightarrow> (Inl e, w1)
      | (Inr fpath, w1) \<Rightarrow>
          let lock = fpath @ LOCK_SUFFIX
          in (case acquire lock w1 of
                (Some e, w2) \<Rightarrow> (Inl (get_field_handler e), w2)
              | (None, w2) \<Rightarrow>
                  (case read_json fpath w2 of
                     (Inl e, w3) \<Rightarrow> (Inl (get_field_handler e), release lock w3)
                   | (Inr dct, w3) \<Rightarrow>
                       let w4 = release lock w3
                       in (case subscript dct (field_name fld) of
                             Inl e \<Rightarrow> (Inl (get_field_handler e), w4)
                           | Inr val \<Rightarrow>
                               (case convert fld val of
                                  Inl e \<Rightarrow> (Inl (get_field_handler e), w4)
                                | Inr v \<Rightarrow> (Inr v, w4))))))"

text \<open>
  \<^verbatim>\<open>put_field\<close>: under the lock, the document is read (an absent file gives the empty
  dict, any other exception is raised), the entry is set and the document written.
\<close>

definition put_field :: "'a field_scheme \<Rightarrow> world \<Rightarrow> error option \<times> world" where
  "put_field fld w =
     (case fields_json_path fld None w of
        (Inl e, w1) \<Rightarrow> (Some e, w1)
      | (Inr fpath, w1) \<Rightarrow>
          let lock = fpath @ LOCK_SUFFIX
          in (case acquire lock w1 of
                (Some e, w2) \<Rightarrow> (Some e, w2)
              | (None, w2) \<Rightarrow>
                  let (r, w3) = (case read_json fpath w2 of
                                   (Inl (IOError ENOENT), w') \<Rightarrow> (Inr (JDict []), w')
                                 | x \<Rightarrow> x)
                  in (case r of
                        Inl e \<Rightarrow> (Some e, release lock w3)
                      | Inr dct \<Rightarrow>
                          (case (if array fld
                                 then (case py_iter (field_value fld) of
                                         Inl e \<Rightarrow> Inl e | Inr vs \<Rightarrow> Inr (JList vs))
                                 else Inr (field_value fld)) of
                             Inl e \<Rightarrow> (Some e, release lock w3)
                           | Inr v \<Rightarrow>
                               (case dct of
                                  JDict d \<Rightarrow>
                                    (case write_json fpath
                                            (JDict (dict_set d (field_name fld) v)) w3 of
                                       (err, w4) \<Rightarrow> (err, release lock w4))
                                | _ \<Rightarrow> (Some TypeError, release lock w3))))))"

section \<open>Python string operations used by XnatViaCS\<close>

text \<open>\<^verbatim>\<open>s.split(c)\<close> for a one-character separator: always at least one piece.\<close>

fun split_on :: "'a \<Rightarrow> 'a list \<Rightarrow> 'a list list" where
  "split_on c [] = [[]]"
| "split_on c (x # xs) =
     (if x = c then [] # split_on c xs
      else (case split_on c xs of
              y # ys \<Rightarrow> (x # y) # ys
            | [] \<Rightarrow> [[x]]))"

text \<open>\<^verbatim>\<open>sub in s\<close> for strings.\<close>

definition contains :: "string \<Rightarrow> string \<Rightarrow> bool" where
  "contains s sub = list_ex (\<lambda>i. startswith (drop i s) sub) [0..<Suc (length s)]"

text \<open>
  \<^verbatim>\<open>s.replace(old, new)\<close> for a non-empty \<open>old\<close>: the occurrences are found from left to
  right and do not overlap. \<open>skip\<close> counts the characters of a found occurrence that are
  still to be dropped.
\<close>

fun replace_from :: "nat \<Rightarrow> string \<Rightarrow> string \<Rightarrow> string \<Rightarrow> string" where
  "replace_from skip old new [] = []"
| "replace_from skip old new (c # cs) =
     (if 0 < skip then replace_from (skip - 1) old new cs
      else if startswith (c # cs) old then new @ replace_from (length old - 1) old new cs
      else c # replace_from 0 old new cs)"

definition replace :: "string \<Rightarrow> string \<Rightarrow> string \<Rightarrow> string" where
  "replace s old new = replace_from 0 old new s"

section \<open>pathlib paths\<close>

text \<open>
  A \<^verbatim>\<open>pathlib.PurePosixPath\<close>: its root (empty, one slash, or two slashes when the text
  starts with exactly two) and its parts, from which empty components and single dots
  are dropped. \<open>truediv\<close> is the operator \<^verbatim>\<open>/\<close> with a string on the right: a right
  operand with a root replaces the left one.
\<close>

datatype ppath = PPath (path_root: string) (path_parts: "string list")

definition parse_path :: "string \<Rightarrow> ppath" where
  "parse_path s =
     PPath (if startswith s ''//'' \<and> \<not> startswith s ''///'' then ''//''
            else if startswith s ''/'' then ''/'' else [])
           (filter (\<lambda>p. p \<noteq> [] \<and> p \<noteq> ''.'') (split_on CHR ''/'' s))"

definition truediv :: "ppath \<Rightarrow> string \<Rightarrow> ppath" where
  "truediv p s =
     (let q = parse_path s
      in if path_root q \<noteq> [] then q else PPath (path_root p) (path_parts p @ path_parts q))"

definition joinpath :: "ppath \<Rightarrow> string list \<Rightarrow> ppath" where
  "joinpath p segs = foldl truediv p segs"


definition path_name :: "ppath \<Rightarrow> string" where
  "path_name p = (if path_parts p = [] then [] else last (path_parts p))"

section \<open>XnatViaCS (arcana/data/stores/medimage/xnat/cs.py)\<close>

text \<open>
  Modelled from the spec: the frequencies of the \<^verbatim>\<open>Clinical\<close> data space
  (\<^verbatim>\<open>arcana.data.spaces.medimage\<close>), of which the source names dataset, group, subject,
  timepoint and session.
\<close>

datatype clinical = Dataset | Group | Subject | Timepoint | Session

record data_node =
  node_frequency :: clinical
  node_id :: string

text \<open>
  The attributes of a \<^verbatim>\<open>FileGroup\<close> the store reads and writes: \<open>xfg_path\<close> (its \<^verbatim>\<open>path\<close>), \<open>uri\<close>
  (\<open>None\<close> for a freshly created derivative), \<open>is_dir\<close> and \<open>data_node\<close>.
\<close>

record xnat_file_group =
  xfg_path :: string
  uri :: "string option"
  is_dir :: bool
  data_node :: data_node

record xnat_via_cs =
  frequency :: clinical
  input_mount :: ppath
  output_mount :: ppath
  server :: string
  user :: string
  password :: string

text \<open>
  The operating system, over a file-system state \<open>'fs\<close> that is not inspected: each call
  returns the exception it raises, if any, and the state afterwards.
  \<^verbatim>\<open>shutil.rmtree(ignore_errors=True)\<close> does not raise.
\<close>

record 'fs os =
  iterdir :: "ppath \<Rightarrow> 'fs \<Rightarrow> (error + ppath list) \<times> 'fs"
  rmtree :: "ppath \<Rightarrow> 'fs \<Rightarrow> 'fs"
  os_makedirs :: "ppath \<Rightarrow> 'fs \<Rightarrow> error option \<times> 'fs"
  symlink :: "ppath \<Rightarrow> ppath \<Rightarrow> 'fs \<Rightarrow> error option \<times> 'fs"
  copytree :: "ppath \<Rightarrow> ppath \<Rightarrow> 'fs \<Rightarrow> error option \<times> 'fs"
  copyfile :: "ppath \<Rightarrow> ppath \<Rightarrow> 'fs \<Rightarrow> error option \<times> 'fs"

text \<open>
  What XnatViaCS inherits or calls and the source does not define: \<^verbatim>\<open>cache_path\<close>,
  \<^verbatim>\<open>_make_uri\<close> and \<^verbatim>\<open>get_file_group\<close> of the parent class \<^verbatim>\<open>Xnat\<close>, and \<^verbatim>\<open>copy_ext\<close> of
  \<^verbatim>\<open>FileGroup\<close>.
\<close>

record 'fs xnat =
  cache_path :: "xnat_file_group \<Rightarrow> ppath"
  make_uri :: "data_node \<Rightarrow> string"
  super_get_file_group :: "xnat_file_group \<Rightarrow> 'fs \<Rightarrow> (error + ppath list) \<times> 'fs"
  copy_ext :: "ppath \<Rightarrow> ppath \<Rightarrow> ppath"

definition file_group_stem_path :: "xnat_via_cs \<Rightarrow> xnat_file_group \<Rightarrow> ppath" where
  "file_group_stem_path store fg = joinpath (output_mount store) (split_on CHR ''/'' (xfg_path fg))"

definition get_input_mount :: "xnat_via_cs \<Rightarrow> xnat_file_group \<Rightarrow> error + ppath" where
  "get_input_mount store fg =
     (let dn = data_node fg
      in if frequency store = node_frequency dn then Inr (input_mount store)
         else if frequency store = Dataset \<and> node_frequency dn = Session
           then Inr (truediv (input_mount store) (node_id dn))
         else Inl ArcanaNoDirectXnatMountException)"

text \<open>
  The regular expression matched against the URI,
  \<^verbatim>\<open>/data/(?:archive/)?projects/ID/(?:subjects/ID/)?(?:experiments/ID/)?(?P<path>.*)$\<close> with
  \<^verbatim>\<open>ID = [a-zA-Z0-9\-_]+\<close>. An optional group is taken whenever it matches. The dot does
  not match a newline and \<^verbatim>\<open>$\<close> matches at the end or before a final newline, so the rest
  must have no newline except as its last character, which is then not part of the path.
\<close>

definition idchar :: "char \<Rightarrow> bool" where
  "idchar c =
     (let n = (of_char c :: nat)
      in (97 \<le> n \<and> n \<le> 122) \<or> (65 \<le> n \<and> n \<le> 90) \<or> (48 \<le> n \<and> n \<le> 57)
         \<or> c = CHR ''-'' \<or> c = CHR ''_'')"

definition match_id :: "string \<Rightarrow> string option" where
  "match_id s =
     (let r = dropWhile idchar s
      in if takeWhile idchar s \<noteq> [] \<and> startswith r ''/'' then Some (drop 1 r) else None)"

definition opt_group :: "string \<Rightarrow> string \<Rightarrow> string" where
  "opt_group lit s =
     (if startswith s lit then
        (case match_id (drop (length lit) s) of Some r \<Rightarrow> r | None \<Rightarrow> s)
      else s)"

definition match_uri :: "string \<Rightarrow> string option" where
  "match_uri u =
     (if \<not> startswith u ''/data/'' then None
      else
        let r0 = drop 6 u;
            r1 = (if startswith r0 ''archive/'' then drop 8 r0 else r0)
        in if \<not> startswith r1 ''projects/'' then None
           else (case match_id (drop 9 r1) of
                   None \<Rightarrow> None
                 | Some r2 \<Rightarrow>
                     let r4 = opt_group ''experiments/'' (opt_group ''subjects/'' r2)
                     in if CHR 0x0A \<in> set (butlast r4) then None
                        else if r4 \<noteq> [] \<and> last r4 = CHR 0x0A then Some (butlast r4)
                        else Some r4))"

text \<open>The loop that links every member but the catalog files into the cache directory.\<close>

fun link_items :: "'fs os \<Rightarrow> ppath \<Rightarrow> ppath list \<Rightarrow> 'fs \<Rightarrow> error option \<times> 'fs" where
  "link_items sys dir_path [] fs = (None, fs)"
| "link_items sys dir_path (item # rest) fs =
     (if \<not> endswith (path_name item) ''_catalog.xml'' then
        (case symlink sys item (truediv dir_path (path_name item)) fs of
           (Some e, fs') \<Rightarrow> (Some e, fs')
         | (None, fs') \<Rightarrow> link_items sys dir_path rest fs')
      else link_items sys dir_path rest fs)"

text \<open>
  The body of \<^verbatim>\<open>get_file_group_paths\<close> after the mount has been found (lines 105 to 138).
  \<^verbatim>\<open>if file_group.uri\<close> holds for a URI that is neither \<^verbatim>\<open>None\<close> nor empty.
\<close>

definition direct_paths ::
  "'fs os \<Rightarrow> 'fs xnat \<Rightarrow> xnat_via_cs \<Rightarrow> ppath \<Rightarrow> xnat_file_group \<Rightarrow> 'fs \<Rightarrow>
   (error + ppath list) \<times> 'fs" where
  "direct_paths sys base store mount fg fs =
     (if uri fg \<noteq> None \<and> uri fg \<noteq> Some [] then
        (case match_uri (the (uri fg)) of
           None \<Rightarrow> (Inl AttributeError, fs)
         | Some p0 \<Rightarrow>
             let p1 = (if contains p0 ''scans''
                       then replace (replace p0 ''scans'' ''SCANS'') ''resources/'' []
                       else p0);
                 p2 = replace p1 ''resources'' ''RESOURCES'';
                 resource_path = truediv mount p2
             in if is_dir fg then
                  (let dir_path = cache_path base fg;
                       fs1 = rmtree sys dir_path fs
                   in case os_makedirs sys dir_path fs1 of
                        (Some e, fs2) \<Rightarrow> (Inl e, fs2)
                      | (None, fs2) \<Rightarrow>
                          (case iterdir sys resource_path fs2 of
                             (Inl e, fs3) \<Rightarrow> (Inl e, fs3)
                           | (Inr items, fs3) \<Rightarrow>
                               (case link_items sys dir_path items fs3 of
                                  (Some e, fs4) \<Rightarrow> (Inl e, fs4)
                                | (None, fs4) \<Rightarrow> (Inr [dir_path], fs4))))
                else iterdir sys resource_path fs)
      else
        (let stem_path = file_group_stem_path store fg
         in if is_dir fg then (Inr [stem_path], fs) else iterdir sys stem_path fs))"

definition get_file_group_paths ::
  "'fs os \<Rightarrow> 'fs xnat \<Rightarrow> xnat_via_cs \<Rightarrow> xnat_file_group \<Rightarrow> 'fs \<Rightarrow>
   (error + ppath list) \<times> 'fs" where
  "get_file_group_paths sys base store fg fs =
     (case get_input_mount store fg of
        Inl e \<Rightarrow>
          (if e = ArcanaNoDirectXnatMountException then super_get_file_group base fg fs
           else (Inl e, fs))
      | Inr mount \<Rightarrow> direct_paths sys base store mount fg fs)"

text \<open>
  A call of \<^verbatim>\<open>get_file_group_paths\<close> on an XnatViaCS store. The method is declared as
  \<^verbatim>\<open>get_file_group_paths(self, file_group)\<close>: a call that passes the keyword \<^verbatim>\<open>cache_only\<close>
  of the DataStore contract (\<open>Some b\<close> here, \<open>None\<close> when the keyword is not passed) has no
  parameter to bind it to, and Python raises \<^verbatim>\<open>TypeError\<close> before the body runs.
\<close>

definition call_get_file_group_paths ::
  "'fs os \<Rightarrow> 'fs xnat \<Rightarrow> xnat_via_cs \<Rightarrow> xnat_file_group \<Rightarrow> bool option \<Rightarrow> 'fs \<Rightarrow>
   (error + ppath list) \<times> 'fs" where
  "call_get_file_group_paths sys base store fg cache_only fs =
     (case cache_only of
        Some b \<Rightarrow> (Inl TypeError, fs)
      | None \<Rightarrow> get_file_group_paths sys base store fg fs)"






section \<open>Text files\<close>

definition TAB :: char where
  "TAB = CHR 0x09"

definition LF :: char where
  "LF = CHR 0x0A"

definition CR :: char where
  "CR = CHR 0x0D"

text \<open>\<^verbatim>\<open>sep.join(xs)\<close>.\<close>

fun join_with :: "'a list \<Rightarrow> 'a list list \<Rightarrow> 'a list" where
  "join_with sep [] = []"
| "join_with sep [x] = x"
| "join_with sep (x # y # ys) = x @ sep @ join_with sep (y # ys)"

text \<open>
  Reading a file opened in text mode translates \<^verbatim>\<open>\r\n\<close> and a lone \<^verbatim>\<open>\r\<close> to \<^verbatim>\<open>\n\<close>
  (universal newlines); writing, on a POSIX system, leaves the text as it is.
\<close>

fun universal_newlines :: "string \<Rightarrow> string" where
  "universal_newlines [] = []"
| "universal_newlines [c] = (if c = CR then [LF] else [c])"
| "universal_newlines (c # d # cs) =
     (if c = CR \<and> d = LF then LF # universal_newlines cs
      else if c = CR then LF # universal_newlines (d # cs)
      else c # universal_newlines (d # cs))"

text \<open>
  The lines successive calls of \<^verbatim>\<open>f.readline()\<close> return until the end of the file: each
  with its newline, but for a last line that has none.
\<close>

fun readlines :: "string \<Rightarrow> string list" where
  "readlines [] = []"
| "readlines (c # cs) =
     (if c = LF then [c] # readlines cs
      else (case readlines cs of
              [] \<Rightarrow> [[c]]
            | l # ls \<Rightarrow> (c # l) # ls))"

section \<open>Python dicts, continued\<close>

text \<open>\<^verbatim>\<open>dict(pairs)\<close>, \<^verbatim>\<open>del d[k]\<close>, and the truth value of an optional string.\<close>

definition py_dict :: "(string \<times> 'v) list \<Rightarrow> (string \<times> 'v) list" where
  "py_dict kvs = foldl (\<lambda>d kv. dict_set d (fst kv) (snd kv)) [] kvs"

definition dict_del :: "(string \<times> 'v) list \<Rightarrow> string \<Rightarrow> (string \<times> 'v) list" where
  "dict_del d k = filter (\<lambda>kv. fst kv \<noteq> k) d"

definition truthy :: "string option \<Rightarrow> bool" where
  "truthy x = (case x of None \<Rightarrow> False | Some s \<Rightarrow> s \<noteq> [])"

text \<open>
  Equality of two dicts (\<^verbatim>\<open>==\<close>), which does not depend on the order of the entries:
  every key of either has related values in both.
\<close>

definition dict_rel ::
  "('v \<Rightarrow> 'v \<Rightarrow> bool) \<Rightarrow> (string \<times> 'v) list \<Rightarrow> (string \<times> 'v) list \<Rightarrow> bool" where
  "dict_rel R d1 d2 =
     list_all (\<lambda>k. rel_option R (map_of d1 k) (map_of d2 k)) (map fst d1 @ map fst d2)"

text \<open>Sequencing of steps that may raise.\<close>

definition bind_raise :: "error + 'a \<Rightarrow> ('a \<Rightarrow> error + 'b) \<Rightarrow> error + 'b" where
  "bind_raise x f = (case x of Inl e \<Rightarrow> Inl e | Inr a \<Rightarrow> f a)"

section \<open>BIDS dataset metadata (arcana2/data/sets/bids.py)\<close>

record container_metadata =
  container_type :: "string option"
  container_tag :: "string option"
  container_uri :: "string option"

record generator_metadata =
  gen_name :: string
  gen_version :: "string option"
  gen_description :: "string option"
  code_url :: "string option"
  container :: "container_metadata option"

record source_dataset_metadata =
  src_url :: "string option"
  src_doi :: "string option"
  src_version :: "string option"

text \<open>
  The attributes BidsDataset declares, at their declared types (an attribute whose
  default is \<^verbatim>\<open>None\<close> is optional). \<open>participants\<close> is a dict of dicts in insertion order.
  The attributes of the parent class Dataset are not part of the metadata.
\<close>

record bids_dataset =
  bids_name :: string
  participants :: "(string \<times> (string \<times> string) list) list"
  acknowledgements :: "string option"
  authors :: "string list"
  bids_version :: string
  doi :: "string option"
  funding :: "string list"
  bids_type :: "string option"
  license :: "string option"
  references :: "string list"
  how_to_acknowledge :: "string option"
  ethics_approvals :: "string list"
  generated_by :: "generator_metadata list"
  sources :: "source_dataset_metadata list"
  readme :: "string option"

text \<open>The dataset \<^verbatim>\<open>BidsDataset(path, ...)\<close> constructs: every attribute at its default.\<close>

definition default_dataset :: bids_dataset where
  "default_dataset =
     \<lparr>bids_name = ''Autogenerated-dataset'', participants = [],
      acknowledgements = Some ''Generic BIDS dataset'', authors = [],
      bids_version = ''1.0.1'', doi = None, funding = [], bids_type = Some ''derivative'',
      license = Some ''CC0'', references = [], how_to_acknowledge = Some ''see licence'',
      ethics_approvals = [], generated_by = [], sources = [], readme = None\<rparr>"

text \<open>
  The three files of the root directory that hold the metadata, each \<open>None\<close> when absent:
  \<^verbatim>\<open>dataset_description.json\<close> (the JSON document it holds), \<^verbatim>\<open>participants.tsv\<close> and
  \<^verbatim>\<open>README\<close> (their text). The root directory exists and is writable.
\<close>

record bids_files =
  description_json :: "jvalue option"
  participants_tsv :: "string option"
  readme_file :: "string option"

text \<open>\<^verbatim>\<open>if x: dct[k] = f(x)\<close>.\<close>

definition set_if :: "bool \<Rightarrow> string \<Rightarrow> jvalue \<Rightarrow> (string \<times> jvalue) list \<Rightarrow> (string \<times> jvalue) list" where
  "set_if b k v d = (if b then dict_set d k v else d)"

definition set_str :: "string option \<Rightarrow> string \<Rightarrow> (string \<times> jvalue) list \<Rightarrow> (string \<times> jvalue) list" where
  "set_str x k d = set_if (truthy x) k (JStr (case x of Some s \<Rightarrow> s | None \<Rightarrow> [])) d"

definition set_list :: "string list \<Rightarrow> string \<Rightarrow> (string \<times> jvalue) list \<Rightarrow> (string \<times> jvalue) list" where
  "set_list xs k d = set_if (xs \<noteq> []) k (JList (map JStr xs)) d"

definition ContainerMetadata_to_dict :: "container_metadata \<Rightarrow> jvalue" where
  "ContainerMetadata_to_dict c =
     JDict (set_str (container_uri c) ''URI''
             (set_str (container_tag c) ''Tag''
               (set_str (container_type c) ''Type'' [])))"

definition GeneratorMetadata_to_dict :: "generator_metadata \<Rightarrow> jvalue" where
  "GeneratorMetadata_to_dict g =
     JDict ((case container g of
               None \<Rightarrow> (\<lambda>d. d)
             | Some c \<Rightarrow> (\<lambda>d. dict_set d ''Container'' (ContainerMetadata_to_dict c)))
            (set_str (code_url g) ''CodeURL''
              (set_str (gen_description g) ''Description''
                (set_str (gen_version g) ''Version''
                  [(''Name'', JStr (gen_name g))]))))"

definition SourceDatasetMetadata_to_dict :: "source_dataset_metadata \<Rightarrow> jvalue" where
  "SourceDatasetMetadata_to_dict s =
     JDict (set_str (src_version s) ''Version''
             (set_str (src_doi s) ''DOI''
               (set_str (src_url s) ''URL'' [])))"

text \<open>
  Reading a member of a loaded document at the type of the attribute it is stored in.
  \<^verbatim>\<open>dct[k]\<close> raises \<^verbatim>\<open>KeyError\<close> for an absent key; \<^verbatim>\<open>dct.get(k)\<close> gives \<^verbatim>\<open>None\<close>, or the
  given default. A member of another JSON type than the attribute's has no value in the
  record and is reported as \<^verbatim>\<open>TypeError\<close> (Python stores it as it is), and so is a
  \<^verbatim>\<open>null\<close> entry of the source-dataset list, for which \<^verbatim>\<open>from_dict\<close> returns \<^verbatim>\<open>None\<close>;
  \<^verbatim>\<open>.get\<close> on a value that is not a dict raises \<^verbatim>\<open>AttributeError\<close>.
\<close>

definition as_str :: "jvalue \<Rightarrow> error + string" where
  "as_str v = (case v of JStr s \<Rightarrow> Inr s | _ \<Rightarrow> Inl TypeError)"

definition req_str :: "(string \<times> jvalue) list \<Rightarrow> string \<Rightarrow> error + string" where
  "req_str d k = (case dict_get d k of None \<Rightarrow> Inl (KeyError k) | Some v \<Rightarrow> as_str v)"

definition get_str :: "(string \<times> jvalue) list \<Rightarrow> string \<Rightarrow> error + string option" where
  "get_str d k =
     (case dict_get d k of
        None \<Rightarrow> Inr None
      | Some JNull \<Rightarrow> Inr None
      | Some (JStr s) \<Rightarrow> Inr (Some s)
      | Some _ \<Rightarrow> Inl TypeError)"

definition get_str_list :: "(string \<times> jvalue) list \<Rightarrow> string \<Rightarrow> error + string list" where
  "get_str_list d k =
     (case dict_get d k of
        None \<Rightarrow> Inr []
      | Some (JList vs) \<Rightarrow> map_raise as_str vs
      | Some _ \<Rightarrow> Inl TypeError)"

definition ContainerMetadata_from_dict :: "jvalue option \<Rightarrow> error + container_metadata option" where
  "ContainerMetadata_from_dict dct =
     (case dct of
        None \<Rightarrow> Inr None
      | Some JNull \<Rightarrow> Inr None
      | Some (JDict d) \<Rightarrow>
          bind_raise (get_str d ''Type'') (\<lambda>t.
          bind_raise (get_str d ''Tag'') (\<lambda>g.
          bind_raise (get_str d ''URI'') (\<lambda>u.
          Inr (Some \<lparr>container_type = t, container_tag = g, container_uri = u\<rparr>))))
      | Some _ \<Rightarrow> Inl AttributeError)"

definition GeneratorMetadata_from_dict :: "jvalue \<Rightarrow> error + generator_metadata" where
  "GeneratorMetadata_from_dict dct =
     (case dct of
        JDict d \<Rightarrow>
          bind_raise (req_str d ''Name'') (\<lambda>n.
          bind_raise (get_str d ''Version'') (\<lambda>v.
          bind_raise (get_str d ''Description'') (\<lambda>de.
          bind_raise (get_str d ''CodeURL'') (\<lambda>cu.
          bind_raise (ContainerMetadata_from_dict (dict_get d ''Container'')) (\<lambda>c.
          Inr \<lparr>gen_name = n, gen_version = v, gen_description = de, code_url = cu,
               container = c\<rparr>)))))
      | _ \<Rightarrow> Inl TypeError)"

definition SourceDatasetMetadata_from_dict :: "jvalue \<Rightarrow> error + source_dataset_metadata" where
  "SourceDatasetMetadata_from_dict dct =
     (case dct of
        JNull \<Rightarrow> Inl TypeError
      | JDict d \<Rightarrow>
          bind_raise (get_str d ''URL'') (\<lambda>u.
          bind_raise (get_str d ''DOI'') (\<lambda>i.
          bind_raise (get_str d ''Version'') (\<lambda>v.
          Inr \<lparr>src_url = u, src_doi = i, src_version = v\<rparr>)))
      | _ \<Rightarrow> Inl AttributeError)"

text \<open>The document \<^verbatim>\<open>save_metadata\<close> builds (lines 184 to 208).\<close>

definition description_dict :: "bids_dataset \<Rightarrow> jvalue" where
  "description_dict ds =
     JDict (set_if (sources ds \<noteq> []) ''sourceDatasets''
              (JList (map SourceDatasetMetadata_to_dict (sources ds)))
           (set_if (bids_type ds = Some ''derivative'') ''GeneratedBy''
              (JList (map GeneratorMetadata_to_dict (generated_by ds)))
           (set_str (doi ds) ''DatasetDOI''
           (set_list (references ds) ''ReferencesAndLinks''
           (set_list (ethics_approvals ds) ''EthicsApprovals''
           (set_list (funding ds) ''Funding''
           (set_str (how_to_acknowledge ds) ''HowToAcknowledge''
           (set_str (acknowledgements ds) ''Acknowledgements''
           (set_list (authors ds) ''Authors''
           (set_str (license ds) ''Licence''
           (set_str (bids_type ds) ''DatasetType''
             [(''Name'', JStr (bids_name ds)),
              (''BIDSVersion'', JStr (bids_version ds))])))))))))))"

text \<open>
  The text written to \<^verbatim>\<open>participants.tsv\<close> (lines 212 to 217): the header, then one line
  per participant with the values of the first participant's columns. A participant
  without one of these columns raises \<^verbatim>\<open>KeyError\<close>, after the lines before it have been
  written.
\<close>

definition row_values :: "string list \<Rightarrow> (string \<times> string) list \<Rightarrow> error + string list" where
  "row_values col_names pcpt_attrs =
     map_raise (\<lambda>c. case dict_get pcpt_attrs c of None \<Rightarrow> Inl (KeyError c) | Some v \<Rightarrow> Inr v)
       col_names"

fun write_rows ::
  "string list \<Rightarrow> (string \<times> (string \<times> string) list) list \<Rightarrow> string \<Rightarrow> error option \<times> string" where
  "write_rows col_names [] text = (None, text)"
| "write_rows col_names ((pcpt_id, pcpt_attrs) # rest) text =
     (case row_values col_names pcpt_attrs of
        Inl e \<Rightarrow> (Some e, text)
      | Inr vals \<Rightarrow>
          write_rows col_names rest (text @ join_with [TAB] (pcpt_id # vals) @ [LF]))"

definition write_participants ::
  "(string \<times> (string \<times> string) list) list \<Rightarrow> error option \<times> string" where
  "write_participants ps =
     (let col_names = map fst (snd (hd ps))
      in write_rows col_names ps (join_with [TAB] (''participant_id'' # col_names) @ [LF]))"

definition save_metadata :: "bids_dataset \<Rightarrow> bids_files \<Rightarrow> error option \<times> bids_files" where
  "save_metadata ds fs =
     (if participants ds = [] then (Some ArcanaEmptyDatasetError, fs)
      else
        let fs1 = fs\<lparr>description_json := Some (description_dict ds)\<rparr>
        in case write_participants (participants ds) of
             (Some e, text) \<Rightarrow> (Some e, fs1\<lparr>participants_tsv := Some text\<rparr>)
           | (None, text) \<Rightarrow>
               let fs2 = fs1\<lparr>participants_tsv := Some text\<rparr>
               in (None, case readme ds of
                           None \<Rightarrow> fs2
                         | Some r \<Rightarrow> fs2\<lparr>readme_file := Some r\<rparr>))"

text \<open>
  Reading \<^verbatim>\<open>participants.tsv\<close> (lines 252 to 257): the columns are the first line without
  its last character, split at the tabs; the loop ends at the first line that is empty
  once its last character is dropped.
\<close>

fun load_rows ::
  "string list \<Rightarrow> string list \<Rightarrow> (string \<times> (string \<times> string) list) list \<Rightarrow>
   error + (string \<times> (string \<times> string) list) list" where
  "load_rows cols [] acc = Inr acc"
| "load_rows cols (line # rest) acc =
     (let d = py_dict (zip cols (split_on TAB line))
      in case dict_get d ''participant_id'' of
           None \<Rightarrow> Inl (KeyError ''participant_id'')
         | Some pid \<Rightarrow> load_rows cols rest (dict_set acc pid (dict_del d ''participant_id'')))"

definition read_participants :: "string \<Rightarrow> error + (string \<times> (string \<times> string) list) list" where
  "read_participants content =
     (let ls = readlines (universal_newlines content);
          cols = split_on TAB (butlast (case ls of [] \<Rightarrow> [] | h # t \<Rightarrow> h));
          rows = takeWhile (\<lambda>l. l \<noteq> []) (map butlast (tl ls))
      in load_rows cols rows [])"

text \<open>
  \<^verbatim>\<open>load_metadata\<close> on a dataset object: the attributes are assigned from the document, the
  participants table and the README; \<open>generated_by\<close> and \<open>sources\<close> keep the values the
  object has when the document does not give them.
\<close>

definition load_metadata :: "bids_files \<Rightarrow> bids_dataset \<Rightarrow> error + bids_dataset" where
  "load_metadata fs self =
     (case description_json fs of
        None \<Rightarrow> Inl ArcanaEmptyDatasetError
      | Some (JDict d) \<Rightarrow>
          bind_raise (req_str d ''Name'') (\<lambda>nm.
          bind_raise (req_str d ''BIDSVersion'') (\<lambda>bv.
          bind_raise (get_str d ''DatasetType'') (\<lambda>bt.
          bind_raise (get_str d ''Licence'') (\<lambda>li.
          bind_raise (get_str_list d ''Authors'') (\<lambda>au.
          bind_raise (get_str d ''Acknowledgements'') (\<lambda>ac.
          bind_raise (get_str d ''HowToAcknowledge'') (\<lambda>ha.
          bind_raise (get_str_list d ''Funding'') (\<lambda>fu.
          bind_raise (get_str_list d ''EthicsApprovals'') (\<lambda>ea.
          bind_raise (get_str_list d ''ReferencesAndLinks'') (\<lambda>re.
          bind_raise (get_str d ''DatasetDOI'') (\<lambda>di.
          bind_raise
            (if bt = Some ''derivative'' then
               (case dict_get d ''GeneratedBy'' of
                  None \<Rightarrow> Inl ArcanaError
                | Some v \<Rightarrow>
                    bind_raise (py_iter v) (map_raise GeneratorMetadata_from_dict))
             else Inr (generated_by self)) (\<lambda>gb.
          bind_raise
            (case dict_get d ''sourceDatasets'' of
               None \<Rightarrow> Inr (sources self)
             | Some v \<Rightarrow> bind_raise (py_iter v) (map_raise SourceDatasetMetadata_from_dict)) (\<lambda>so.
          bind_raise
            (case participants_tsv fs of
               None \<Rightarrow> Inl (IOError ENOENT)
             | Some content \<Rightarrow> read_participants content) (\<lambda>ps.
          Inr \<lparr>bids_name = nm, participants = ps, acknowledgements = ac, authors = au,
               bids_version = bv, doi = di, funding = fu, bids_type = bt, license = li,
               references = re, how_to_acknowledge = ha, ethics_approvals = ea,
               generated_by = gb, sources = so,
               readme = map_option universal_newlines (readme_file fs)\<rparr>))))))))))))))
      | Some _ \<Rightarrow> Inl TypeError)"

text \<open>\<^verbatim>\<open>BidsDataset.load\<close>: a dataset constructed with the defaults, then \<^verbatim>\<open>load_metadata\<close>.\<close>

definition BidsDataset_load :: "bids_files \<Rightarrow> error + bids_dataset" where
  "BidsDataset_load fs = load_metadata fs default_dataset"

text \<open>
  Equality by value of two datasets: attribute by attribute, the participants compared
  as dicts of dicts.
\<close>

definition dataset_eq :: "bids_dataset \<Rightarrow> bids_dataset \<Rightarrow> bool" where
  "dataset_eq a b =
     (bids_name a = bids_name b \<and> dict_rel (dict_rel (=)) (participants a) (participants b)
      \<and> acknowledgements a = acknowledgements b \<and> authors a = authors b
      \<and> bids_version a = bids_version b \<and> doi a = doi b \<and> funding a = funding b
      \<and> bids_type a = bids_type b \<and> license a = license b \<and> references a = references b
      \<and> how_to_acknowledge a = how_to_acknowledge b
      \<and> ethics_approvals a = ethics_approvals b \<and> generated_by a = generated_by b
      \<and> sources a = sources b \<and> readme a = readme b)"

section \<open>Datasets whose metadata survive saving and loading\<close>

text \<open>
  A string that a cell of \<^verbatim>\<open>participants.tsv\<close> holds unchanged: no tab, no newline and no
  carriage return.
\<close>

definition tsv_safe :: "string \<Rightarrow> bool" where
  "tsv_safe s = (TAB \<notin> set s \<and> LF \<notin> set s \<and> CR \<notin> set s)"

text \<open>
  A participants table that the file represents: a dict of dicts (distinct keys) with
  at least one participant, every participant with the columns of the first, no column
  called \<^verbatim>\<open>participant_id\<close>, every identifier, column name and value safe for a cell,
  and no participant whose line is empty (an empty identifier and no column).
\<close>

definition table_ok :: "(string \<times> (string \<times> string) list) list \<Rightarrow> bool" where
  "table_ok ps =
     (ps \<noteq> [] \<and> distinct (map fst ps)
      \<and> ''participant_id'' \<notin> set (map fst (snd (hd ps)))
      \<and> list_all (\<lambda>p. distinct (map fst (snd p))
                       \<and> set (map fst (snd p)) = set (map fst (snd (hd ps)))
                       \<and> tsv_safe (fst p) \<and> (fst p \<noteq> [] \<or> snd p \<noteq> [])
                       \<and> list_all (\<lambda>cv. tsv_safe (fst cv) \<and> tsv_safe (snd cv)) (snd p)) ps)"

text \<open>An optional string that is written when it is set: \<^verbatim>\<open>None\<close> or not empty.\<close>

definition kept :: "string option \<Rightarrow> bool" where
  "kept x = (x \<noteq> Some [])"

definition generator_ok :: "generator_metadata \<Rightarrow> bool" where
  "generator_ok g =
     (kept (gen_version g) \<and> kept (gen_description g) \<and> kept (code_url g)
      \<and> (case container g of
            None \<Rightarrow> True
          | Some c \<Rightarrow> kept (container_type c) \<and> kept (container_tag c) \<and> kept (container_uri c)))"

definition source_ok :: "source_dataset_metadata \<Rightarrow> bool" where
  "source_ok s = (kept (src_url s) \<and> kept (src_doi s) \<and> kept (src_version s))"

text \<open>
  The condition on a dataset and the directory it is saved to: the optional strings are
  \<^verbatim>\<open>None\<close> or not empty, also in the generator and source records; generators are listed
  only for a dataset of type \<^verbatim>\<open>derivative\<close>; the participants table is representable;
  the readme has no carriage return, and when it is \<^verbatim>\<open>None\<close> the directory has no
  \<^verbatim>\<open>README\<close> from before.
\<close>

definition metadata_ok :: "bids_dataset \<Rightarrow> bids_files \<Rightarrow> bool" where
  "metadata_ok ds fs =
     (kept (bids_type ds) \<and> kept (license ds) \<and> kept (acknowledgements ds)
      \<and> kept (how_to_acknowledge ds) \<and> kept (doi ds)
      \<and> list_all generator_ok (generated_by ds) \<and> list_all source_ok (sources ds)
      \<and> (bids_type ds = Some ''derivative'' \<or> generated_by ds = [])
      \<and> table_ok (participants ds)
      \<and> (case readme ds of None \<Rightarrow> readme_file fs = None | Some r \<Rightarrow> CR \<notin> set r))"

text \<open>
  The cells \<^verbatim>\<open>save_metadata\<close> writes for a participant whose dict has every column, the
  line they make with the identifier, and the table \<^verbatim>\<open>load_metadata\<close> reads back: every
  participant with the columns in the order of the first participant's.
\<close>

definition row_of :: "string list \<Rightarrow> (string \<times> string) list \<Rightarrow> string list" where
  "row_of cols attrs = map (\<lambda>c. the (map_of attrs c)) cols"

definition line_of :: "string list \<Rightarrow> string \<times> (string \<times> string) list \<Rightarrow> string" where
  "line_of cols p = join_with [TAB] (fst p # row_of cols (snd p))"

definition loaded_table ::
  "(string \<times> (string \<times> string) list) list \<Rightarrow> (string \<times> (string \<times> string) list) list" where
  "loaded_table ps =
     map (\<lambda>p. (fst p, map (\<lambda>c. (c, the (map_of (snd p) c))) (map fst (snd (hd ps))))) ps"

section \<open>Connection reentrancy\<close>

lemma enter_connected:
  "connection_depth s \<noteq> 0 \<Longrightarrow> enter conn s = s\<lparr>connection_depth := connection_depth s + 1\<rparr>"
  by (simp add: enter_def)

lemma enter_first:
  "connection_depth s = 0 \<Longrightarrow>
   enter conn s = s\<lparr>connection_depth := 1, session := conn (session s),
                    calls := calls s @ [Connect]\<rparr>"
  by (simp add: enter_def connect_def)

lemma enter_pow_connected:
  "0 < connection_depth s \<Longrightarrow>
   (enter conn ^^ k) s = s\<lparr>connection_depth := connection_depth s + int k\<rparr>"
proof (induction k)
  case 0
  then show ?case by simp
next
  case (Suc k)
  then show ?case by (simp add: enter_connected)
qed

lemma enter_pow_first:
  assumes "connection_depth s = 0"
  shows "(enter conn ^^ Suc k) s =
         s\<lparr>connection_depth := 1 + int k, session := conn (session s),
           calls := calls s @ [Connect]\<rparr>"
proof -
  have "(enter conn ^^ Suc k) s = (enter conn ^^ k) (enter conn s)"
    by (simp only: funpow_Suc_right o_apply)
  also have "\<dots> = (enter conn s)\<lparr>connection_depth := connection_depth (enter conn s) + int k\<rparr>"
    by (rule enter_pow_connected) (simp add: enter_first assms)
  finally show ?thesis by (simp add: enter_first assms)
qed

lemma exit_inner:
  "connection_depth s \<noteq> 1 \<Longrightarrow> exit disc s = s\<lparr>connection_depth := connection_depth s - 1\<rparr>"
  by (simp add: exit_def)

lemma exit_last:
  "connection_depth s = 1 \<Longrightarrow>
   exit disc s = s\<lparr>connection_depth := 0, session := disc (session s),
                   calls := calls s @ [Disconnect]\<rparr>"
  by (simp add: exit_def disconnect_def)

lemma exit_pow_inner:
  "int j < connection_depth s \<Longrightarrow>
   (exit disc ^^ j) s = s\<lparr>connection_depth := connection_depth s - int j\<rparr>"
proof (induction j)
  case 0
  then show ?case by simp
next
  case (Suc j)
  then show ?case by (simp add: exit_inner)
qed

lemma exit_pow_all:
  assumes "connection_depth s = 1 + int j"
  shows "(exit disc ^^ Suc j) s =
         s\<lparr>connection_depth := 0, session := disc (session s),
           calls := calls s @ [Disconnect]\<rparr>"
proof -
  have "(exit disc ^^ j) s = s\<lparr>connection_depth := 1\<rparr>"
    using exit_pow_inner [of j s disc] assms by simp
  then show ?thesis by (simp add: exit_last)
qed

text \<open>
  C2. Starting from a store with no open acquisition, \<open>n \<ge> 1\<close> nested calls of
  \<^verbatim>\<open>__enter__\<close> followed by \<open>n\<close> calls of \<^verbatim>\<open>__exit__\<close> call \<open>connect\<close> exactly once, on
  the first \<^verbatim>\<open>__enter__\<close>, and \<open>disconnect\<close> exactly once, on the last \<^verbatim>\<open>__exit__\<close>:
  after any \<open>k\<close> of the acquisitions (\<open>1 \<le> k \<le> n\<close>) and after any \<open>j < n\<close> of the releases
  the only call made is the one \<open>connect\<close>, and after all \<open>n\<close> releases the calls are
  \<open>connect\<close> then \<open>disconnect\<close>, with the depth back at 0.
\<close>

theorem nested_acquisitions_connect_once:
  assumes "connection_depth s = 0" and "1 \<le> n"
  shows "(\<forall>k. 1 \<le> k \<and> k \<le> n \<longrightarrow> calls ((enter conn ^^ k) s) = calls s @ [Connect])
       \<and> (\<forall>j. j < n \<longrightarrow>
            calls ((exit disc ^^ j) ((enter conn ^^ n) s)) = calls s @ [Connect])
       \<and> calls ((exit disc ^^ n) ((enter conn ^^ n) s)) = calls s @ [Connect, Disconnect]
       \<and> session ((exit disc ^^ n) ((enter conn ^^ n) s)) = disc (conn (session s))
       \<and> connection_depth ((exit disc ^^ n) ((enter conn ^^ n) s)) = 0"
proof -
  obtain m where n: "n = Suc m"
    using assms(2) by (cases n) auto
  have acq: "calls ((enter conn ^^ k) s) = calls s @ [Connect]" if k1: "1 \<le> k" for k
  proof -
    obtain k' where "k = Suc k'" using k1 by (cases k) auto
    then show ?thesis by (simp only: enter_pow_first [OF assms(1)]) simp
  qed
  let ?t = "(enter conn ^^ n) s"
  have t: "?t = s\<lparr>connection_depth := 1 + int m, session := conn (session s),
                  calls := calls s @ [Connect]\<rparr>"
    unfolding n by (rule enter_pow_first [OF assms(1)])
  have rel: "calls ((exit disc ^^ j) ?t) = calls s @ [Connect]" if "j < n" for j
  proof -
    have "int j < connection_depth ?t" using that n t by simp
    then have "(exit disc ^^ j) ?t = ?t\<lparr>connection_depth := connection_depth ?t - int j\<rparr>"
      by (rule exit_pow_inner)
    then show ?thesis using t by simp
  qed
  have "connection_depth ?t = 1 + int m" using t by simp
  then have "(exit disc ^^ Suc m) ?t =
             ?t\<lparr>connection_depth := 0, session := disc (session ?t),
                calls := calls ?t @ [Disconnect]\<rparr>"
    by (rule exit_pow_all)
  then have fin: "(exit disc ^^ n) ?t =
             ?t\<lparr>connection_depth := 0, session := disc (session ?t),
                calls := calls ?t @ [Disconnect]\<rparr>"
    using n by simp
  have c: "calls ((exit disc ^^ n) ?t) = calls s @ [Connect, Disconnect]"
    by (simp only: fin) (simp add: t)
  have se: "session ((exit disc ^^ n) ?t) = disc (conn (session s))"
    by (simp only: fin) (simp add: t)
  have d: "connection_depth ((exit disc ^^ n) ?t) = 0"
    by (simp only: fin) simp
  from acq rel c se d show ?thesis by blast
qed

theorem nested_acquisitions_connect_once_witness:
  "calls ((exit Suc ^^ 3) ((enter Suc ^^ 3) \<lparr>connection_depth = 0, session = 0::nat, calls = []\<rparr>))
     = [Connect, Disconnect]
   \<and> calls ((enter Suc ^^ 2) \<lparr>connection_depth = 0, session = 0::nat, calls = []\<rparr>) = [Connect]
   \<and> calls ((exit Suc ^^ 2) ((enter Suc ^^ 3) \<lparr>connection_depth = 0, session = 0::nat, calls = []\<rparr>))
     = [Connect]"
proof -
  let ?s = "\<lparr>connection_depth = 0, session = 0::nat, calls = []\<rparr>"
  have h0: "connection_depth ?s = 0" by simp
  have h1: "(1::nat) \<le> 3" by simp
  note t = nested_acquisitions_connect_once [OF h0 h1, of Suc Suc]
  have a: "calls ((exit Suc ^^ 3) ((enter Suc ^^ 3) ?s)) = [Connect, Disconnect]"
    using t by simp
  have b: "calls ((enter Suc ^^ 2) ?s) = [Connect]"
    using t [THEN conjunct1, rule_format, of 2] by simp
  have c: "calls ((exit Suc ^^ 2) ((enter Suc ^^ 3) ?s)) = [Connect]"
    using t [THEN conjunct2, THEN conjunct1, rule_format, of 2] by simp
  from a b c show ?thesis by blast
qed

section \<open>Store registry name collision\<close>

text \<open>
  C5. When the name is a key of the singletons registry, \<open>save\<close> raises the name error
  carrying that name and leaves the store and the configuration file as they were.
  Otherwise, when serialising the (connected) store succeeds, the file afterwards holds
  the previous entries with the serialised configuration under the name, and no
  exception is raised.
\<close>

theorem save_name_collision:
  "(name \<in> dom singletons \<longrightarrow>
      save singletons serialise conn disc name (store, cfile)
        = (Some (ArcanaNameError name), store, cfile))
   \<and> (name \<notin> dom singletons \<longrightarrow> serialise (enter conn store) = Inr cfg \<longrightarrow>
      save singletons serialise conn disc name (store, cfile)
        = (None, exit disc (enter conn store),
           Some ((load_saved_entries cfile)(name \<mapsto> cfg))))"
  by (simp add: save_def save_entries_def)

theorem save_name_collision_witness:
  "save [''file'' \<mapsto> ()] (\<lambda>s. Inr (connection_depth s)) Suc Suc ''file''
      (\<lparr>connection_depth = 0, session = 0::nat, calls = []\<rparr>, Some [''mine'' \<mapsto> 7])
    = (Some (ArcanaNameError ''file''),
       \<lparr>connection_depth = 0, session = 0::nat, calls = []\<rparr>, Some [''mine'' \<mapsto> 7])
   \<and> save [''file'' \<mapsto> ()] (\<lambda>s. Inr (connection_depth s)) Suc Suc ''xnat1''
      (\<lparr>connection_depth = 0, session = 0::nat, calls = []\<rparr>, Some [''mine'' \<mapsto> 7])
    = (None, \<lparr>connection_depth = 0, session = 2, calls = [Connect, Disconnect]\<rparr>,
       Some [''mine'' \<mapsto> 7, ''xnat1'' \<mapsto> 1])"
proof -
  let ?s = "\<lparr>connection_depth = 0, session = 0::nat, calls = []\<rparr>"
  let ?ser = "\<lambda>s :: nat data_store. (Inr (connection_depth s) :: error + int)"
  let ?sing = "[''file'' \<mapsto> ()]"
  have e: "enter Suc ?s = \<lparr>connection_depth = 1, session = 1, calls = [Connect]\<rparr>"
    by (simp add: enter_def connect_def)
  have x: "exit Suc (enter Suc ?s)
           = \<lparr>connection_depth = 0, session = 2, calls = [Connect, Disconnect]\<rparr>"
    by (simp add: e exit_def disconnect_def)
  have a: "''file'' \<in> dom ?sing" by simp
  have b: "''xnat1'' \<notin> dom ?sing" by simp
  have c: "?ser (enter Suc ?s) = Inr 1" by (simp add: e)
  from save_name_collision [where name = "''file''" and singletons = ?sing and serialise = ?ser
      and conn = Suc and disc = Suc and store = ?s and cfile = "Some [''mine'' \<mapsto> 7]"] a
  have 1: "save ?sing ?ser Suc Suc ''file'' (?s, Some [''mine'' \<mapsto> 7])
           = (Some (ArcanaNameError ''file''), ?s, Some [''mine'' \<mapsto> 7])"
    by blast
  from save_name_collision [where name = "''xnat1''" and singletons = ?sing and serialise = ?ser
      and conn = Suc and disc = Suc and store = ?s and cfg = 1
      and cfile = "Some [''mine'' \<mapsto> 7]"] b c
  have 2: "save ?sing ?ser Suc Suc ''xnat1'' (?s, Some [''mine'' \<mapsto> 7])
           = (None, exit Suc (enter Suc ?s),
              Some ((load_saved_entries (Some [''mine'' \<mapsto> 7]))(''xnat1'' \<mapsto> 1)))"
    by blast
  from 1 2 show ?thesis by (simp add: x load_saved_entries_def)
qed

section \<open>Path resolution\<close>


lemma file_group_path_eq:
  assumes "ds = (case da of None \<Rightarrow> item_dataset it | Some d \<Rightarrow> d)"
    and "level_dirs (tree_level it) (depth ds)
             (inv_map_subject_id ds (subject_id it))
             (inv_map_timepoint_id ds (timepoint_id it)) = Inr (sd, td)"
    and "acq_dir (ds_name ds) (depth ds) sd td = Inr acq"
  shows "file_group_path it da fa w =
         (let sess = op_join acq (case namespace it of None \<Rightarrow> [] | Some ns \<Rightarrow> [ns]);
              path = op_join acq ((case namespace it of None \<Rightarrow> [] | Some ns \<Rightarrow> [ns])
                       @ [case fa of None \<Rightarrow> fname it | Some f \<Rightarrow> f])
          in if derived it \<and> \<not> op_exists w sess then
               (case makedirs sess w of
                  (Some e, w') \<Rightarrow> (Inl e, w')
                | (None, w') \<Rightarrow> (Inr path, w'))
             else (Inr path, w))"
  using assms
  by (cases "namespace it"; cases fa; cases da)
     (simp_all add: file_group_path_def Let_def op_join_def split: prod.splits option.splits)










lemma file_group_path_level_error:
  assumes "ds = (case da of None \<Rightarrow> item_dataset it | Some d \<Rightarrow> d)"
    and "level_dirs (tree_level it) (depth ds)
             (inv_map_subject_id ds (subject_id it))
             (inv_map_timepoint_id ds (timepoint_id it)) = Inl e"
  shows "file_group_path it da fa w = (Inl e, w)"
  using assms by (cases da) (simp_all add: file_group_path_def Let_def)









text \<open>
  C1, as stated, fails in its clause that the reserved name is distinct from any real
  identifier: \<open>file_group_path\<close> never compares an identifier with \<open>SUMMARY_NAME\<close>, so a
  \<^verbatim>\<open>per_session\<close> item whose subject and timepoint identifiers are both \<^verbatim>\<open>__ALL__\<close> resolves
  to the path of the \<^verbatim>\<open>per_dataset\<close> item with the same file name.
\<close>

theorem summary_name_clash_counterexample:
  "fst (file_group_path
     \<lparr>item_dataset = \<lparr>ds_name = ''/data'', depth = 2,
                      inv_map_subject_id = (\<lambda>x. x), inv_map_timepoint_id = (\<lambda>x. x)\<rparr>,
      tree_level = ''per_session'', subject_id = Some ''__ALL__'',
      timepoint_id = Some ''__ALL__'', namespace = None, fname = ''a.txt'', derived = False\<rparr>
     None None \<lparr>files = Map.empty, trace = []\<rparr>)
   = Inr ''/data/__ALL__/__ALL__/a.txt''
   \<and> fst (file_group_path
     \<lparr>item_dataset = \<lparr>ds_name = ''/data'', depth = 2,
                      inv_map_subject_id = (\<lambda>x. x), inv_map_timepoint_id = (\<lambda>x. x)\<rparr>,
      tree_level = ''per_dataset'', subject_id = None, timepoint_id = None,
      namespace = None, fname = ''a.txt'', derived = False\<rparr>
     None None \<lparr>files = Map.empty, trace = []\<rparr>)
   = Inr ''/data/__ALL__/__ALL__/a.txt''"
  by (simp add: file_group_path_def level_dirs_def acq_dir_def startswith_def op_join_def
      join2_def endswith_def py_str_def SUMMARY_NAME_def)






section \<open>Fields and file-groups of the plain file-system store\<close>

lemma length_ancestors: "q \<in> set (ancestors p) \<Longrightarrow> length q < length p"
  by (auto simp: ancestors_def)

lemma makedirs_files:
  "makedirs p w = (None, w') \<Longrightarrow> length p < length q \<Longrightarrow> files w' q = files w q"
  using length_ancestors [of q p] by (auto simp: makedirs_def split: if_splits)

lemma length_join2: "f \<noteq> [] \<Longrightarrow> \<not> startswith f ''/'' \<Longrightarrow> length a < length (join2 a f)"
  by (auto simp: join2_def)

lemma file_group_path_keeps_file:
  assumes r: "file_group_path it da (Some f) w = (Inr p, w1)"
    and f: "f \<noteq> []" "\<not> startswith f ''/''"
  shows "files w1 p = files w p"
proof -
  define ds where "ds = (case da of None \<Rightarrow> item_dataset it | Some d \<Rightarrow> d)"
  let ?l = "level_dirs (tree_level it) (depth ds)
             (inv_map_subject_id ds (subject_id it))
             (inv_map_timepoint_id ds (timepoint_id it))"
  show ?thesis
  proof (cases ?l)
    case (Inl e)
    from file_group_path_level_error [OF ds_def Inl, of "Some f" w] r show ?thesis by simp
  next
    case (Inr sdtd)
    obtain sd td where p: "sdtd = (sd, td)" by (cases sdtd)
    show ?thesis
    proof (cases "acq_dir (ds_name ds) (depth ds) sd td")
      case (Inl e)
      with Inr p r ds_def show ?thesis
        by (cases da) (simp_all add: file_group_path_def Let_def)
    next
      case acq: (Inr acq)
      note eq = file_group_path_eq [OF ds_def Inr [unfolded p] acq, of "Some f" w]
      let ?sess = "op_join acq (case namespace it of None \<Rightarrow> [] | Some ns \<Rightarrow> [ns])"
      have path: "op_join acq ((case namespace it of None \<Rightarrow> [] | Some ns \<Rightarrow> [ns]) @ [f])
                  = join2 ?sess f"
        by (simp add: op_join_def)
      show ?thesis
      proof (cases "derived it \<and> \<not> op_exists w ?sess")
        case False
        with r eq show ?thesis by (auto simp: Let_def)
      next
        case True
        obtain e w' where m: "makedirs ?sess w = (e, w')" by (cases "makedirs ?sess w")
        show ?thesis
        proof (cases e)
          case None
          with True m r eq have "w1 = w'" "p = join2 ?sess f"
            by (simp_all add: Let_def path)
          with makedirs_files [OF m [unfolded None], of p] length_join2 [OF f, of ?sess]
          show ?thesis by simp
        next
          case (Some x)
          with True m r eq show ?thesis by (simp add: Let_def)
        qed
      qed
    qed
  qed
qed

lemma fields_json_path_keeps_file:
  assumes "fields_json_path fld da w = (Inr p, w1)"
  shows "files w1 p = files w p"
proof -
  have "FIELDS_FNAME \<noteq> []" "\<not> startswith FIELDS_FNAME ''/''"
    by (simp_all add: FIELDS_FNAME_def startswith_def)
  with assms show ?thesis
    unfolding fields_json_path_def by (rule file_group_path_keeps_file)
qed

lemma map_of_dict_set: "map_of (dict_set d k v) = (map_of d)(k \<mapsto> v)"
  by (induction d k v rule: dict_set.induct) auto


text \<open>
  What resolving a path and taking a lock change: only absent paths above the
  target, which become directories, and the lock file, which is created.
\<close>

lemma join2_ends: "\<not> startswith f ''/'' \<Longrightarrow> \<exists>x. join2 a f = x @ f"
  by (auto simp: join2_def intro: exI [of _ "[]"])

lemma file_group_path_result:
  assumes r: "file_group_path it da fa w = (Inr p, w1)"
  shows "\<exists>sess. p = join2 sess (case fa of None \<Rightarrow> fname it | Some f \<Rightarrow> f)
           \<and> (w1 = w \<or> makedirs sess w = (None, w1))"
proof -
  define ds where "ds = (case da of None \<Rightarrow> item_dataset it | Some d \<Rightarrow> d)"
  let ?l = "level_dirs (tree_level it) (depth ds)
             (inv_map_subject_id ds (subject_id it))
             (inv_map_timepoint_id ds (timepoint_id it))"
  show ?thesis
  proof (cases ?l)
    case (Inl e)
    from file_group_path_level_error [OF ds_def Inl, of fa w] r show ?thesis by simp
  next
    case (Inr sdtd)
    obtain sd td where p: "sdtd = (sd, td)" by (cases sdtd)
    show ?thesis
    proof (cases "acq_dir (ds_name ds) (depth ds) sd td")
      case (Inl e)
      with Inr p r ds_def show ?thesis
        by (cases da) (simp_all add: file_group_path_def Let_def)
    next
      case acq: (Inr acq)
      note eq = file_group_path_eq [OF ds_def Inr [unfolded p] acq, of fa w]
      let ?sess = "op_join acq (case namespace it of None \<Rightarrow> [] | Some ns \<Rightarrow> [ns])"
      let ?f = "case fa of None \<Rightarrow> fname it | Some f \<Rightarrow> f"
      have path: "op_join acq ((case namespace it of None \<Rightarrow> [] | Some ns \<Rightarrow> [ns]) @ [?f])
                  = join2 ?sess ?f"
        by (simp add: op_join_def)
      show ?thesis
      proof (cases "derived it \<and> \<not> op_exists w ?sess")
        case False
        with r eq have "p = join2 ?sess ?f" "w1 = w" by (auto simp: Let_def path)
        then show ?thesis by blast
      next
        case True
        obtain e w' where m: "makedirs ?sess w = (e, w')" by (cases "makedirs ?sess w")
        show ?thesis
        proof (cases e)
          case None
          with True m r eq have "w1 = w'" "p = join2 ?sess ?f"
            by (simp_all add: Let_def path)
          with m None show ?thesis by blast
        next
          case (Some x)
          with True m r eq show ?thesis by (simp add: Let_def)
        qed
      qed
    qed
  qed
qed

lemma ancestors_prefix: "q \<in> set (ancestors p) \<Longrightarrow> \<exists>r. p = q @ r"
proof -
  assume "q \<in> set (ancestors p)"
  then obtain n where "q = take n p" by (auto simp: ancestors_def)
  then have "p = q @ drop n p" by simp
  then show ?thesis ..
qed

lemma makedirs_changes:
  "makedirs p w = (None, w') \<Longrightarrow> files w' q \<noteq> files w q \<Longrightarrow>
   files w q = None \<and> files w' q = Some Dir \<and> length q \<le> length p \<and> (\<exists>r. p = q @ r)"
  using length_ancestors [of q p] ancestors_prefix [of q p]
  by (auto simp: makedirs_def split: if_splits)

lemma makedirs_trace: "makedirs p w = (None, w') \<Longrightarrow> trace w' = trace w @ [Makedirs p]"
  by (auto simp: makedirs_def split: if_splits)

lemma file_group_path_changes:
  assumes "file_group_path it da fa w = (Inr p, w1)" "files w1 q \<noteq> files w q"
  shows "files w q = None \<and> files w1 q = Some Dir"
  using file_group_path_result [OF assms(1)] assms(2) makedirs_changes by blast

lemma fields_json_path_ends:
  assumes "fields_json_path fld da w = (Inr p, w1)"
  shows "\<exists>x. p = x @ FIELDS_FNAME"
proof -
  from assms obtain sess where "p = join2 sess FIELDS_FNAME"
    unfolding fields_json_path_def using file_group_path_result by fastforce
  moreover have "\<not> startswith FIELDS_FNAME ''/''"
    by (simp add: FIELDS_FNAME_def startswith_def)
  ultimately show ?thesis using join2_ends by metis
qed

lemma length_dirname:
  "length (dirname p) \<le> length (dropWhile (\<lambda>c. c \<noteq> CHR ''/'') (rev p))"
proof -
  let ?h = "rev (dropWhile (\<lambda>c. c \<noteq> CHR ''/'') (rev p))"
  have "length (dropWhile (\<lambda>c. c = CHR ''/'') (rev ?h)) \<le> length (rev ?h)"
    by (rule length_dropWhile_le)
  then show ?thesis by (simp add: dirname_def Let_def)
qed

lemma rev_dropWhile_prefix: "\<exists>r. xs = rev (dropWhile P (rev xs)) @ r"
proof -
  have "rev (takeWhile P (rev xs) @ dropWhile P (rev xs)) = xs" by simp
  then have "rev (dropWhile P (rev xs)) @ rev (takeWhile P (rev xs)) = xs"
    by (simp only: rev_append)
  then have "xs = rev (dropWhile P (rev xs)) @ rev (takeWhile P (rev xs))" by (rule sym)
  then show ?thesis ..
qed

lemma dirname_prefix: "\<exists>r. p = dirname p @ r"
proof -
  let ?h = "rev (dropWhile (\<lambda>c. c \<noteq> CHR ''/'') (rev p))"
  obtain r where r: "p = ?h @ r" using rev_dropWhile_prefix by blast
  obtain r' where r': "?h = rev (dropWhile (\<lambda>c. c = CHR ''/'') (rev ?h)) @ r'"
    using rev_dropWhile_prefix by blast
  show ?thesis
  proof (cases "?h \<noteq> [] \<and> \<not> list_all (\<lambda>c. c = CHR ''/'') ?h")
    case True
    then have "dirname p = rev (dropWhile (\<lambda>c. c = CHR ''/'') (rev ?h))"
      by (simp add: dirname_def Let_def)
    with r r' have "p = dirname p @ (r' @ r)" by (metis append_assoc)
    then show ?thesis ..
  next
    case False
    then have "dirname p = ?h" by (auto simp: dirname_def Let_def)
    with r have "p = dirname p @ r" by simp
    then show ?thesis ..
  qed
qed

lemma prefix_of_append:
  assumes "x @ y = d @ r" "length d \<le> length x"
  shows "\<exists>t. x = d @ t"
proof -
  from assms have "take (length d) (x @ y) = d" by simp
  with assms(2) have "take (length d) x = d" by simp
  then have "x = d @ drop (length d) x" by (metis append_take_drop_id)
  then show ?thesis ..
qed

lemma length_dirname_append:
  assumes "CHR ''/'' \<notin> set s"
  shows "length (dirname (x @ s)) \<le> length x"
proof -
  let ?P = "\<lambda>c. c \<noteq> CHR ''/''"
  have "dropWhile ?P (rev s @ rev x) = dropWhile ?P (rev x)"
    by (rule dropWhile_append2) (use assms in auto)
  then have "dropWhile ?P (rev (x @ s)) = dropWhile ?P (rev x)" by simp
  moreover have "length (dropWhile ?P (rev x)) \<le> length (rev x)"
    by (rule length_dropWhile_le)
  ultimately show ?thesis using length_dirname [of "x @ s"] by simp
qed

lemma acquire_ok:
  assumes "acquire l w = (None, w')"
  shows "trace w' = trace w @ [Acquire l]"
    and "\<exists>c. files w' l = Some (File c)"
    and "files w' q \<noteq> files w q \<Longrightarrow>
         files w q = None \<and>
         ((q = l \<and> files w' q = Some (File None))
          \<or> (files w' q = Some Dir \<and> length q \<le> length (dirname l)
              \<and> (\<exists>r. dirname l = q @ r)))"
proof -
  let ?b = "dirname l"
  obtain e w1 where t: "(if ?b = [] \<or> files w ?b = Some Dir then (None, w) else makedirs ?b w)
                        = (e, w1)"
    by (cases "if ?b = [] \<or> files w ?b = Some Dir then (None, w) else makedirs ?b w")
  with assms have e: "e = None"
    by (cases e) (simp_all add: acquire_def Let_def)
  have ch: "files w1 q \<noteq> files w q \<Longrightarrow>
            files w q = None \<and> files w1 q = Some Dir \<and> length q \<le> length ?b
            \<and> (\<exists>r. ?b = q @ r)" for q
    using t e makedirs_changes [of ?b w w1 q] by (auto split: if_splits)
  from assms t e have le: "lookup_error w1 l = None"
    by (cases "lookup_error w1 l") (simp_all add: acquire_def Let_def)
  from assms t e le have r: "(case files w1 l of
                Some Dir \<Rightarrow> (Some (IOError EISDIR), w\<lparr>files := files w1\<rparr>)
              | Some (File c) \<Rightarrow>
                  (None, w\<lparr>files := files w1, trace := trace w @ [Acquire l]\<rparr>)
              | None \<Rightarrow>
                  (None, w\<lparr>files := (files w1)(l \<mapsto> File None),
                           trace := trace w @ [Acquire l]\<rparr>)) = (None, w')"
    by (simp add: acquire_def Let_def)
  show "trace w' = trace w @ [Acquire l]"
    using r by (auto split: option.splits fnode.splits)
  show "\<exists>c. files w' l = Some (File c)"
    using r by (auto split: option.splits fnode.splits)
  show "files w q = None \<and>
         ((q = l \<and> files w' q = Some (File None))
          \<or> (files w' q = Some Dir \<and> length q \<le> length (dirname l)
              \<and> (\<exists>r. dirname l = q @ r)))"
    if d: "files w' q \<noteq> files w q"
  proof (cases "files w1 l")
    case None
    with r have w': "files w' = (files w1)(l \<mapsto> File None)" by auto
    show ?thesis
    proof (cases "q = l")
      case True
      have "files w l = None"
        using ch [of l] None by (cases "files w1 l = files w l") auto
      with True w' show ?thesis by simp
    next
      case False
      with w' d have "files w1 q \<noteq> files w q" by simp
      from ch [OF this] False w' show ?thesis by simp
    qed
  next
    case (Some n)
    with r have "files w' = files w1" by (cases n) auto
    with d ch [of q] show ?thesis by auto
  qed
qed

lemma ancestors_append: "q \<in> set (ancestors p) \<Longrightarrow> q \<in> set (ancestors (p @ s))"
proof -
  assume "q \<in> set (ancestors p)"
  then obtain n where n: "q = take n p" "1 \<le> n" "n < length p" "p ! n = CHR ''/''"
    by (auto simp: ancestors_def)
  then have "q = take n (p @ s)" "n < length (p @ s)" "(p @ s) ! n = CHR ''/''"
    by (simp_all add: nth_append)
  with n(2) show ?thesis unfolding ancestors_def
    by (auto simp: image_iff intro!: bexI [of _ n])
qed

lemma acquire_ancestors:
  assumes a: "acquire l w = (None, w')" and q: "q \<in> set (ancestors l)"
  shows "files w' q = Some Dir"
proof -
  let ?b = "dirname l"
  obtain e w1 where t: "(if ?b = [] \<or> files w ?b = Some Dir then (None, w) else makedirs ?b w)
                        = (e, w1)"
    by (cases "if ?b = [] \<or> files w ?b = Some Dir then (None, w) else makedirs ?b w")
  with a have e: "e = None"
    by (cases e) (simp_all add: acquire_def Let_def)
  from a t e have le: "lookup_error w1 l = None"
    by (cases "lookup_error w1 l") (simp_all add: acquire_def Let_def)
  then have "find (\<lambda>q. files w1 q \<noteq> Some Dir) (ancestors l) = None"
    by (simp add: lookup_error_def split: option.splits if_splits)
  with q have d: "files w1 q = Some Dir" by (auto simp: find_None_iff)
  from a t e le have r: "(case files w1 l of
                Some Dir \<Rightarrow> (Some (IOError EISDIR), w\<lparr>files := files w1\<rparr>)
              | Some (File c) \<Rightarrow>
                  (None, w\<lparr>files := files w1, trace := trace w @ [Acquire l]\<rparr>)
              | None \<Rightarrow>
                  (None, w\<lparr>files := (files w1)(l \<mapsto> File None),
                           trace := trace w @ [Acquire l]\<rparr>)) = (None, w')"
    by (simp add: acquire_def Let_def)
  from length_ancestors [OF q] have "q \<noteq> l" by auto
  with r d show ?thesis by (auto split: option.splits fnode.splits)
qed

lemma acquire_keeps_target:
  assumes a: "acquire (x @ f @ s) w = (None, w')"
    and f: "f \<noteq> []" "CHR ''/'' \<notin> set f" "CHR ''/'' \<notin> set s" "s \<noteq> []"
  shows "files w' (x @ f) = files w (x @ f)"
proof (rule ccontr)
  assume "files w' (x @ f) \<noteq> files w (x @ f)"
  from acquire_ok(3) [OF a this] have
    "(x @ f = x @ f @ s) \<or> length (x @ f) \<le> length (dirname (x @ f @ s))" by blast
  moreover have "length (dirname (x @ (f @ s))) \<le> length x"
    using f by (intro length_dirname_append) auto
  moreover have "0 < length f" using f(1) by simp
  ultimately show False using f(4) by auto
qed

lemma lookup_error_dirs:
  assumes "\<forall>q \<in> set (ancestors p). files w q = Some Dir"
  shows "lookup_error w p = None"
proof -
  have "find (\<lambda>q. files w q \<noteq> Some Dir) (ancestors p) = None"
    using assms by (simp add: find_None_iff)
  then show ?thesis by (simp add: lookup_error_def)
qed

lemma FIELDS_FNAME_facts:
  "FIELDS_FNAME \<noteq> []" "CHR ''/'' \<notin> set FIELDS_FNAME"
  "LOCK_SUFFIX \<noteq> []" "CHR ''/'' \<notin> set LOCK_SUFFIX"
  by (simp_all add: FIELDS_FNAME_def LOCK_SUFFIX_def)

lemma lookup_error_files: "files w' = files w \<Longrightarrow> lookup_error w' p = lookup_error w p"
  by (simp add: lookup_error_def cong: option.case_cong)

lemma locked_fields_file:
  assumes r: "fields_json_path fld None w = (Inr fpath, w1)"
    and a: "acquire (fpath @ LOCK_SUFFIX) w1 = (None, w2)"
  shows "files w2 fpath = files w fpath"
    and "lookup_error w2 fpath = None"
proof -
  from fields_json_path_ends [OF r] obtain x where x: "fpath = x @ FIELDS_FNAME" by blast
  have "files w2 (x @ FIELDS_FNAME) = files w1 (x @ FIELDS_FNAME)"
    using a FIELDS_FNAME_facts unfolding x
    by (intro acquire_keeps_target [where x = x and f = FIELDS_FNAME and s = LOCK_SUFFIX
          and w = w1 and w' = w2]) auto
  with fields_json_path_keeps_file [OF r] x show "files w2 fpath = files w fpath" by simp
  have "\<forall>q \<in> set (ancestors fpath). files w2 q = Some Dir"
    using acquire_ancestors [OF a] ancestors_append [of _ fpath LOCK_SUFFIX] by blast
  then show "lookup_error w2 fpath = None" by (rule lookup_error_dirs)
qed

lemma put_field_eq:
  assumes r: "fields_json_path fld None w = (Inr fpath, w1)"
    and a: "acquire (fpath @ LOCK_SUFFIX) w1 = (None, w2)"
    and v: "(if array fld then (case py_iter (field_value fld) of
                                 Inl e \<Rightarrow> Inl e | Inr vs \<Rightarrow> Inr (JList vs))
             else Inr (field_value fld)) = Inr v"
    and d: "files w fpath = None \<and> d = [] \<or> files w fpath = Some (File (Some (JDict d)))"
  shows "put_field fld w =
         (None, w2\<lparr>files := (files w2)(fpath \<mapsto> File (Some (JDict (dict_set d (field_name fld) v)))),
                  trace := trace w1 @ [Acquire (fpath @ LOCK_SUFFIX)]
                    @ (if files w fpath = None then [] else [ReadFile fpath])
                    @ [WriteFile fpath, Release (fpath @ LOCK_SUFFIX)]\<rparr>)"
proof -
  note k = locked_fields_file(1) [OF r a]
  note le = locked_fields_file(2) [OF r a]
  have le': "lookup_error (w2\<lparr>trace := t\<rparr>) fpath = None" for t
    using le lookup_error_files [of "w2\<lparr>trace := t\<rparr>" w2 fpath] by simp
  note tr = acquire_ok(1) [OF a]
  from d show ?thesis
  proof
    assume "files w fpath = None \<and> d = []"
    with k v le show ?thesis
      by (simp add: put_field_def r a Let_def read_json_def release_def write_json_def tr)
  next
    assume "files w fpath = Some (File (Some (JDict d)))"
    with k v le le' show ?thesis
      by (simp add: put_field_def r a Let_def read_json_def release_def write_json_def tr)
  qed
qed

lemma ancestors_fields_json:
  "ancestors ''/data/S1/T1'' = [''/data'', ''/data/S1'']"
  "ancestors ''/data/S1/T1/fields.json.lock'' = [''/data'', ''/data/S1'', ''/data/S1/T1'']"
  "dirname ''/data/S1/T1/fields.json.lock'' = ''/data/S1/T1''"
  by code_simp+

text \<open>
  When a path above the fields file is a regular file, taking the lock raises
  \<^verbatim>\<open>NotADirectoryError\<close>; \<open>get_field\<close> raises it again (its errno is not \<^verbatim>\<open>ENOENT\<close>) and
  \<open>put_field\<close> lets it through.
\<close>

lemma get_field_not_a_directory:
  "fst (get_field
     \<lparr>item_dataset = \<lparr>ds_name = ''/data'', depth = 2,
                      inv_map_subject_id = (\<lambda>x. x), inv_map_timepoint_id = (\<lambda>x. x)\<rparr>,
      tree_level = ''per_session'', subject_id = Some ''S1'', timepoint_id = Some ''T1'',
      namespace = None, fname = ''weight'', derived = False,
      field_name = ''weight'', field_value = JInt 70, array = False, dtype = (\<lambda>v. Inr v)\<rparr>
     \<lparr>files = [''/data'' \<mapsto> Dir, ''/data/S1'' \<mapsto> File None], trace = []\<rparr>)
   = Inl (IOError ENOTDIR)
   \<and> fst (put_field
     \<lparr>item_dataset = \<lparr>ds_name = ''/data'', depth = 2,
                      inv_map_subject_id = (\<lambda>x. x), inv_map_timepoint_id = (\<lambda>x. x)\<rparr>,
      tree_level = ''per_session'', subject_id = Some ''S1'', timepoint_id = Some ''T1'',
      namespace = None, fname = ''weight'', derived = False,
      field_name = ''weight'', field_value = JInt 70, array = False, dtype = (\<lambda>v. Inr v)\<rparr>
     \<lparr>files = [''/data'' \<mapsto> Dir, ''/data/S1'' \<mapsto> File None], trace = []\<rparr>)
   = Some (IOError ENOTDIR)"
proof -
  let ?ds = "\<lparr>ds_name = ''/data'', depth = 2,
               inv_map_subject_id = (\<lambda>x. x), inv_map_timepoint_id = (\<lambda>x. x)\<rparr>"
  let ?fld = "\<lparr>item_dataset = ?ds,
      tree_level = ''per_session'', subject_id = Some ''S1'', timepoint_id = Some ''T1'',
      namespace = None, fname = ''weight'', derived = False,
      field_name = ''weight'', field_value = JInt 70, array = False,
      dtype = (\<lambda>v. Inr v :: error + jvalue)\<rparr>"
  let ?p = "''/data/S1/T1/fields.json''"
  let ?w = "\<lparr>files = [''/data'' \<mapsto> Dir, ''/data/S1'' \<mapsto> File None], trace = []\<rparr>"
  note ev = fields_json_path_def file_group_path_def level_dirs_def acq_dir_def startswith_def
      op_join_def join2_def endswith_def py_str_def FIELDS_FNAME_def Let_def
  note lk = acquire_def LOCK_SUFFIX_def ancestors_fields_json makedirs_def lookup_error_def
      is_file_def Let_def
  have p: "fields_json_path ?fld None ?w = (Inr ?p, ?w)"
    by (simp add: ev)
  have l: "acquire (?p @ LOCK_SUFFIX) ?w = (Some (IOError ENOTDIR), ?w)"
    by (simp add: lk)
  from l show ?thesis
    by (simp add: get_field_def put_field_def p get_field_handler_def Let_def)
qed




text \<open>
  C10. When the path of the fields JSON file resolves, the lock of that file can be
  taken, the file is absent or holds a JSON object \<open>d\<close> (\<open>d\<close> empty when absent), and \<open>v\<close>
  is the field's value (its list of elements when the field is array-valued),
  \<open>put_field\<close> raises nothing and leaves at that path a JSON object in which the field's
  name maps to \<open>v\<close> and every other key maps to what it did in \<open>d\<close>; when the file was
  absent the object is exactly the one new entry. The lock file exists afterwards; any
  other path is as it was, or was absent, lies above the fields file and is now a
  directory. The read (when the file exists) and the write happen between taking and
  releasing the lock of that file.
\<close>

theorem put_field_frame:
  assumes r: "fields_json_path fld None w = (Inr fpath, w1)"
    and l: "fst (acquire (fpath @ LOCK_SUFFIX) w1) = None"
    and d: "files w fpath = None \<and> d = [] \<or> files w fpath = Some (File (Some (JDict d)))"
    and v: "if array fld then py_iter (field_value fld) = Inr vs \<and> v = JList vs
            else v = field_value fld"
  shows "\<exists>w' d'. put_field fld w = (None, w')
       \<and> files w' fpath = Some (File (Some (JDict d')))
       \<and> dict_get d' (field_name fld) = Some v
       \<and> (\<forall>k. k \<noteq> field_name fld \<longrightarrow> dict_get d' k = dict_get d k)
       \<and> (files w fpath = None \<longrightarrow> d' = [(field_name fld, v)])
       \<and> (\<exists>c. files w' (fpath @ LOCK_SUFFIX) = Some (File c))
       \<and> (\<forall>q. q \<noteq> fpath \<longrightarrow> q \<noteq> fpath @ LOCK_SUFFIX \<longrightarrow>
             files w' q = files w1 q
             \<or> (files w1 q = None \<and> files w' q = Some Dir \<and> (\<exists>r. fpath = q @ r)))
       \<and> trace w' = trace w1 @ [Acquire (fpath @ LOCK_SUFFIX)]
                    @ (if files w fpath = None then [] else [ReadFile fpath])
                    @ [WriteFile fpath, Release (fpath @ LOCK_SUFFIX)]"
proof -
  from l obtain w2 where a: "acquire (fpath @ LOCK_SUFFIX) w1 = (None, w2)"
    by (cases "acquire (fpath @ LOCK_SUFFIX) w1") auto
  have v': "(if array fld then (case py_iter (field_value fld) of
                                 Inl e \<Rightarrow> Inl e | Inr vs \<Rightarrow> Inr (JList vs))
             else Inr (field_value fld)) = Inr v"
    using v by (simp split: if_splits)
  note eq = put_field_eq [OF r a v' d]
  let ?d' = "dict_set d (field_name fld) v"
  let ?w' = "w2\<lparr>files := (files w2)(fpath \<mapsto> File (Some (JDict ?d'))),
                  trace := trace w1 @ [Acquire (fpath @ LOCK_SUFFIX)]
                    @ (if files w fpath = None then [] else [ReadFile fpath])
                    @ [WriteFile fpath, Release (fpath @ LOCK_SUFFIX)]\<rparr>"
  have 1: "dict_get ?d' (field_name fld) = Some v"
    by (simp add: dict_get_def map_of_dict_set)
  have 2: "\<forall>k. k \<noteq> field_name fld \<longrightarrow> dict_get ?d' k = dict_get d k"
    by (simp add: dict_get_def map_of_dict_set)
  have 3: "files w fpath = None \<longrightarrow> ?d' = [(field_name fld, v)]"
    using d by auto
  have 4: "files ?w' fpath = Some (File (Some (JDict ?d')))" by simp
  have "fpath @ LOCK_SUFFIX \<noteq> fpath" by (simp add: LOCK_SUFFIX_def)
  with acquire_ok(2) [OF a]
  have 5: "\<exists>c. files ?w' (fpath @ LOCK_SUFFIX) = Some (File c)" by simp
  have 6: "\<forall>q. q \<noteq> fpath \<longrightarrow> q \<noteq> fpath @ LOCK_SUFFIX \<longrightarrow>
             files ?w' q = files w1 q
             \<or> (files w1 q = None \<and> files ?w' q = Some Dir \<and> (\<exists>r. fpath = q @ r))"
  proof (intro allI impI)
    fix q assume q: "q \<noteq> fpath" "q \<noteq> fpath @ LOCK_SUFFIX"
    show "files ?w' q = files w1 q
             \<or> (files w1 q = None \<and> files ?w' q = Some Dir \<and> (\<exists>r. fpath = q @ r))"
    proof (cases "files w2 q = files w1 q")
      case True
      with q show ?thesis by simp
    next
      case False
      from acquire_ok(3) [OF a False] q obtain r where
        c: "files w1 q = None" "files w2 q = Some Dir"
          "length q \<le> length (dirname (fpath @ LOCK_SUFFIX))"
          "dirname (fpath @ LOCK_SUFFIX) = q @ r" by blast
      obtain t where t: "fpath @ LOCK_SUFFIX = dirname (fpath @ LOCK_SUFFIX) @ t"
        using dirname_prefix by blast
      have "length (dirname (fpath @ LOCK_SUFFIX)) \<le> length fpath"
        using FIELDS_FNAME_facts by (intro length_dirname_append) auto
      from prefix_of_append [OF t this] c(4) have "\<exists>r. fpath = q @ r" by auto
      with c q show ?thesis by simp
    qed
  qed
  have 7: "trace ?w' = trace w1 @ [Acquire (fpath @ LOCK_SUFFIX)]
                    @ (if files w fpath = None then [] else [ReadFile fpath])
                    @ [WriteFile fpath, Release (fpath @ LOCK_SUFFIX)]" by simp
  show ?thesis
    apply (rule exI [of _ ?w'])
    apply (rule exI [of _ ?d'])
    by (intro conjI eq 1 2 3 4 5 6 7)
qed

theorem put_field_frame_witness:
  "(\<exists>w' d'. put_field
     \<lparr>item_dataset = \<lparr>ds_name = ''/data'', depth = 2,
                      inv_map_subject_id = (\<lambda>x. x), inv_map_timepoint_id = (\<lambda>x. x)\<rparr>,
      tree_level = ''per_session'', subject_id = Some ''S1'', timepoint_id = Some ''T1'',
      namespace = None, fname = ''weight'', derived = False,
      field_name = ''weight'', field_value = JInt 70, array = False, dtype = (\<lambda>v. Inr v)\<rparr>
     \<lparr>files = [''/data'' \<mapsto> Dir, ''/data/S1'' \<mapsto> Dir, ''/data/S1/T1'' \<mapsto> Dir,
               ''/data/S1/T1/fields.json'' \<mapsto> File (Some (JDict [(''age'', JInt 30)]))],
      trace = []\<rparr> = (None, w')
   \<and> files w' ''/data/S1/T1/fields.json'' = Some (File (Some (JDict d')))
   \<and> dict_get d' ''weight'' = Some (JInt 70)
   \<and> dict_get d' ''age'' = Some (JInt 30)
   \<and> (\<exists>c. files w' ''/data/S1/T1/fields.json.lock'' = Some (File c))
   \<and> files w' ''/data/S1/T1'' = Some Dir
   \<and> files w' ''/data/S2'' = None
   \<and> trace w' = [Acquire ''/data/S1/T1/fields.json.lock'', ReadFile ''/data/S1/T1/fields.json'',
                   WriteFile ''/data/S1/T1/fields.json'',
                   Release ''/data/S1/T1/fields.json.lock''])
   \<and> (\<exists>w'. put_field
     \<lparr>item_dataset = \<lparr>ds_name = ''/data'', depth = 2,
                      inv_map_subject_id = (\<lambda>x. x), inv_map_timepoint_id = (\<lambda>x. x)\<rparr>,
      tree_level = ''per_session'', subject_id = Some ''S1'', timepoint_id = Some ''T1'',
      namespace = None, fname = ''weight'', derived = False,
      field_name = ''weight'', field_value = JInt 70, array = False, dtype = (\<lambda>v. Inr v)\<rparr>
     \<lparr>files = [''/data'' \<mapsto> Dir], trace = []\<rparr> = (None, w')
   \<and> files w' ''/data/S1/T1/fields.json'' = Some (File (Some (JDict [(''weight'', JInt 70)])))
   \<and> (\<exists>c. files w' ''/data/S1/T1/fields.json.lock'' = Some (File c))
   \<and> files w' ''/data'' = Some Dir
   \<and> files w' ''/data/S2'' = None
   \<and> trace w' = [Acquire ''/data/S1/T1/fields.json.lock'',
                   WriteFile ''/data/S1/T1/fields.json'',
                   Release ''/data/S1/T1/fields.json.lock''])"
proof -
  let ?ds = "\<lparr>ds_name = ''/data'', depth = 2,
               inv_map_subject_id = (\<lambda>x. x), inv_map_timepoint_id = (\<lambda>x. x)\<rparr>"
  let ?fld = "\<lparr>item_dataset = ?ds,
      tree_level = ''per_session'', subject_id = Some ''S1'', timepoint_id = Some ''T1'',
      namespace = None, fname = ''weight'', derived = False,
      field_name = ''weight'', field_value = JInt 70, array = False,
      dtype = (\<lambda>v. Inr v :: error + jvalue)\<rparr>"
  let ?p = "''/data/S1/T1/fields.json''"
  let ?w = "\<lparr>files = [''/data'' \<mapsto> Dir, ''/data/S1'' \<mapsto> Dir, ''/data/S1/T1'' \<mapsto> Dir,
               ?p \<mapsto> File (Some (JDict [(''age'', JInt 30)]))], trace = []\<rparr>"
  let ?u = "\<lparr>files = [''/data'' \<mapsto> Dir], trace = []\<rparr>"
  note ev = fields_json_path_def file_group_path_def level_dirs_def acq_dir_def startswith_def
      op_join_def join2_def endswith_def py_str_def FIELDS_FNAME_def Let_def
  note lk = acquire_def LOCK_SUFFIX_def ancestors_fields_json makedirs_def lookup_error_def
      is_file_def Let_def
  have v: "if array ?fld then py_iter (field_value ?fld) = Inr [] \<and> JInt 70 = JList []
           else JInt 70 = field_value ?fld"
    by simp
  have r: "fields_json_path ?fld None ?w = (Inr ?p, ?w)"
    by (simp add: ev)
  have l: "fst (acquire (?p @ LOCK_SUFFIX) ?w) = None"
    by (simp add: lk)
  have d: "files ?w ?p = None \<and> [(''age'', JInt 30)] = []
           \<or> files ?w ?p = Some (File (Some (JDict [(''age'', JInt 30)])))"
    by simp
  from put_field_frame [OF r l d v]
  obtain w' d' where f0: "put_field ?fld ?w = (None, w')
       \<and> files w' ?p = Some (File (Some (JDict d')))
       \<and> dict_get d' (field_name ?fld) = Some (JInt 70)
       \<and> (\<forall>k. k \<noteq> field_name ?fld \<longrightarrow> dict_get d' k = dict_get [(''age'', JInt 30)] k)
       \<and> (files ?w ?p = None \<longrightarrow> d' = [(field_name ?fld, JInt 70)])
       \<and> (\<exists>c. files w' (?p @ LOCK_SUFFIX) = Some (File c))
       \<and> (\<forall>q. q \<noteq> ?p \<longrightarrow> q \<noteq> ?p @ LOCK_SUFFIX \<longrightarrow>
             files w' q = files ?w q
             \<or> (files ?w q = None \<and> files w' q = Some Dir \<and> (\<exists>r. ?p = q @ r)))
       \<and> trace w' = trace ?w @ [Acquire (?p @ LOCK_SUFFIX)]
                    @ (if files ?w ?p = None then [] else [ReadFile ?p])
                    @ [WriteFile ?p, Release (?p @ LOCK_SUFFIX)]"
    by (elim exE) (rule that)
  note f1 = f0 [THEN conjunct1]
  note f2 = f0 [THEN conjunct2, THEN conjunct1]
  note f3 = f0 [THEN conjunct2, THEN conjunct2, THEN conjunct1]
  note f4 = f0 [THEN conjunct2, THEN conjunct2, THEN conjunct2, THEN conjunct1]
  note f6 = f0 [THEN conjunct2, THEN conjunct2, THEN conjunct2, THEN conjunct2, THEN conjunct2,
      THEN conjunct1]
  note f7 = f0 [THEN conjunct2, THEN conjunct2, THEN conjunct2, THEN conjunct2, THEN conjunct2,
      THEN conjunct2, THEN conjunct1]
  note f8 = f0 [THEN conjunct2, THEN conjunct2, THEN conjunct2, THEN conjunct2, THEN conjunct2,
      THEN conjunct2, THEN conjunct2]
  from f3 have a3: "dict_get d' ''weight'' = Some (JInt 70)" by simp
  from f4 [rule_format, of "''age''"] have a4: "dict_get d' ''age'' = Some (JInt 30)"
    by (simp add: dict_get_def)
  from f6 have a5: "\<exists>c. files w' ''/data/S1/T1/fields.json.lock'' = Some (File c)"
    by (simp add: LOCK_SUFFIX_def)
  from f7 [rule_format, of "''/data/S1/T1''"] have a6: "files w' ''/data/S1/T1'' = Some Dir"
    by (simp add: LOCK_SUFFIX_def)
  from f7 [rule_format, of "''/data/S2''"] have a7: "files w' ''/data/S2'' = None"
    by (simp add: LOCK_SUFFIX_def)
  from f8 have a8: "trace w' = [Acquire ''/data/S1/T1/fields.json.lock'', ReadFile ?p,
                   WriteFile ?p, Release ''/data/S1/T1/fields.json.lock'']"
    by (simp add: LOCK_SUFFIX_def)
  have A: "\<exists>w' d'. put_field ?fld ?w = (None, w')
     \<and> files w' ?p = Some (File (Some (JDict d')))
     \<and> dict_get d' ''weight'' = Some (JInt 70)
     \<and> dict_get d' ''age'' = Some (JInt 30)
     \<and> (\<exists>c. files w' ''/data/S1/T1/fields.json.lock'' = Some (File c))
     \<and> files w' ''/data/S1/T1'' = Some Dir
     \<and> files w' ''/data/S2'' = None
     \<and> trace w' = [Acquire ''/data/S1/T1/fields.json.lock'', ReadFile ?p,
                   WriteFile ?p, Release ''/data/S1/T1/fields.json.lock'']"
    by (rule exI [of _ w'], rule exI [of _ d'], intro conjI) (rule f1 f2 a3 a4 a5 a6 a7 a8)+
  have r': "fields_json_path ?fld None ?u = (Inr ?p, ?u)"
    by (simp add: ev)
  have l': "fst (acquire (?p @ LOCK_SUFFIX) ?u) = None"
    by (simp add: lk)
  have d': "files ?u ?p = None \<and> ([] :: (string \<times> jvalue) list) = []
           \<or> files ?u ?p = Some (File (Some (JDict [])))"
    by simp
  from put_field_frame [OF r' l' d' v]
  obtain u' e' where g0: "put_field ?fld ?u = (None, u')
       \<and> files u' ?p = Some (File (Some (JDict e')))
       \<and> dict_get e' (field_name ?fld) = Some (JInt 70)
       \<and> (\<forall>k. k \<noteq> field_name ?fld \<longrightarrow> dict_get e' k = dict_get [] k)
       \<and> (files ?u ?p = None \<longrightarrow> e' = [(field_name ?fld, JInt 70)])
       \<and> (\<exists>c. files u' (?p @ LOCK_SUFFIX) = Some (File c))
       \<and> (\<forall>q. q \<noteq> ?p \<longrightarrow> q \<noteq> ?p @ LOCK_SUFFIX \<longrightarrow>
             files u' q = files ?u q
             \<or> (files ?u q = None \<and> files u' q = Some Dir \<and> (\<exists>r. ?p = q @ r)))
       \<and> trace u' = trace ?u @ [Acquire (?p @ LOCK_SUFFIX)]
                    @ (if files ?u ?p = None then [] else [ReadFile ?p])
                    @ [WriteFile ?p, Release (?p @ LOCK_SUFFIX)]"
    by (elim exE) (rule that)
  note g1 = g0 [THEN conjunct1]
  note g2 = g0 [THEN conjunct2, THEN conjunct1]
  note g5 = g0 [THEN conjunct2, THEN conjunct2, THEN conjunct2, THEN conjunct2, THEN conjunct1]
  note g6 = g0 [THEN conjunct2, THEN conjunct2, THEN conjunct2, THEN conjunct2, THEN conjunct2,
      THEN conjunct1]
  note g7 = g0 [THEN conjunct2, THEN conjunct2, THEN conjunct2, THEN conjunct2, THEN conjunct2,
      THEN conjunct2, THEN conjunct1]
  note g8 = g0 [THEN conjunct2, THEN conjunct2, THEN conjunct2, THEN conjunct2, THEN conjunct2,
      THEN conjunct2, THEN conjunct2]
  from g2 g5 have b2: "files u' ?p = Some (File (Some (JDict [(''weight'', JInt 70)])))"
    by simp
  from g6 have b4: "\<exists>c. files u' ''/data/S1/T1/fields.json.lock'' = Some (File c)"
    by (simp add: LOCK_SUFFIX_def)
  from g7 [rule_format, of "''/data''"] have b5: "files u' ''/data'' = Some Dir"
    by (simp add: LOCK_SUFFIX_def)
  from g7 [rule_format, of "''/data/S2''"] have b6: "files u' ''/data/S2'' = None"
    by (simp add: LOCK_SUFFIX_def)
  from g8 have b7: "trace u' = [Acquire ''/data/S1/T1/fields.json.lock'',
                   WriteFile ?p, Release ''/data/S1/T1/fields.json.lock'']"
    by (simp add: LOCK_SUFFIX_def)
  have B: "\<exists>w'. put_field ?fld ?u = (None, w')
     \<and> files w' ?p = Some (File (Some (JDict [(''weight'', JInt 70)])))
     \<and> (\<exists>c. files w' ''/data/S1/T1/fields.json.lock'' = Some (File c))
     \<and> files w' ''/data'' = Some Dir
     \<and> files w' ''/data/S2'' = None
     \<and> trace w' = [Acquire ''/data/S1/T1/fields.json.lock'',
                   WriteFile ?p, Release ''/data/S1/T1/fields.json.lock'']"
    by (rule exI [of _ u'], intro conjI) (rule g1 b2 b4 b5 b6 b7)+
  from A B show ?thesis by (rule conjI)
qed

section \<open>The store accessed through the container service\<close>



text \<open>
  C3. The DataStore contract documents \<^verbatim>\<open>get_file_group_paths(file_group, cache_only)\<close>
  raising a cache error on a checksum mismatch. On an XnatViaCS store a call with
  \<^verbatim>\<open>cache_only=True\<close> raises \<^verbatim>\<open>TypeError\<close> whatever the checksums are, and leaves the file
  system as it was: no cache-consistency error is raised.
\<close>

theorem cache_only_keyword_rejected:
  "call_get_file_group_paths sys base store fg (Some True) fs = (Inl TypeError, fs)"
  by (simp add: call_get_file_group_paths_def)




section \<open>Saving and loading the metadata of a BIDS dataset\<close>

lemma split_on_no_sep: "c \<notin> set x \<Longrightarrow> split_on c x = [x]"
  by (induction x) auto

lemma split_on_append_sep:
  "c \<notin> set x \<Longrightarrow> split_on c (x @ c # rest) = x # split_on c rest"
  by (induction x) auto

lemma split_on_join:
  "xs \<noteq> [] \<Longrightarrow> \<forall>x \<in> set xs. c \<notin> set x \<Longrightarrow> split_on c (join_with [c] xs) = xs"
proof (induction "[c]" xs rule: join_with.induct)
  case 1
  then show ?case by simp
next
  case (2 x)
  then show ?case by (simp add: split_on_no_sep)
next
  case (3 x y ys)
  then show ?case by (simp add: split_on_append_sep)
qed

lemma universal_newlines_id: "CR \<notin> set s \<Longrightarrow> universal_newlines s = s"
  by (induction s rule: universal_newlines.induct) auto

lemma readlines_line:
  "LF \<notin> set l \<Longrightarrow> readlines (l @ LF # rest) = (l @ [LF]) # readlines rest"
  by (induction l) auto

lemma readlines_lines:
  "\<forall>l \<in> set ls. LF \<notin> set l \<Longrightarrow>
   readlines (concat (map (\<lambda>l. l @ [LF]) ls)) = map (\<lambda>l. l @ [LF]) ls"
  by (induction ls) (auto simp: readlines_line)

lemma set_join_with: "set (join_with sep xs) \<subseteq> set sep \<union> \<Union> (set ` set xs)"
  by (induction sep xs rule: join_with.induct) auto

lemma join_with_Nil_iff: "join_with [c] (x # xs) = [] \<longleftrightarrow> x = [] \<and> xs = []"
  by (cases xs) auto

lemma dict_set_new: "k \<notin> fst ` set d \<Longrightarrow> dict_set d k v = d @ [(k, v)]"
  by (induction d) auto

lemma py_dict_distinct_aux:
  "distinct (map fst (acc @ kvs)) \<Longrightarrow>
   foldl (\<lambda>d kv. dict_set d (fst kv) (snd kv)) acc kvs = acc @ kvs"
proof (induction kvs arbitrary: acc)
  case Nil
  then show ?case by simp
next
  case (Cons kv kvs)
  have "fst kv \<notin> fst ` set acc" using Cons.prems by auto
  then have "dict_set acc (fst kv) (snd kv) = acc @ [kv]" by (simp add: dict_set_new)
  moreover have "distinct (map fst ((acc @ [kv]) @ kvs))" using Cons.prems by simp
  ultimately show ?case using Cons.IH [of "acc @ [kv]"] by simp
qed

lemma py_dict_distinct: "distinct (map fst kvs) \<Longrightarrow> py_dict kvs = kvs"
  using py_dict_distinct_aux [of "[]" kvs] by (simp add: py_dict_def)

lemma dict_del_head:
  "k \<notin> fst ` set d \<Longrightarrow> dict_del ((k, v) # d) k = d"
  by (induction d) (auto simp: dict_del_def)

lemma row_values_ok:
  "set cols \<subseteq> fst ` set attrs \<Longrightarrow> row_values cols attrs = Inr (row_of cols attrs)"
proof (induction cols)
  case Nil
  then show ?case by (simp add: row_values_def row_of_def)
next
  case (Cons c cols)
  then obtain v where "map_of attrs c = Some v"
    by (cases "map_of attrs c") (auto simp: map_of_eq_None_iff)
  with Cons show ?case by (simp add: row_values_def row_of_def dict_get_def)
qed

lemma write_rows_ok:
  "\<forall>p \<in> set ps. set cols \<subseteq> fst ` set (snd p) \<Longrightarrow>
   write_rows cols ps t0 = (None, t0 @ concat (map (\<lambda>p. line_of cols p @ [LF]) ps))"
proof (induction ps arbitrary: t0)
  case Nil
  then show ?case by simp
next
  case (Cons p ps)
  obtain pid attrs where p: "p = (pid, attrs)" by (cases p)
  with Cons.prems have "row_values cols attrs = Inr (row_of cols attrs)"
    by (intro row_values_ok) auto
  with Cons p show ?case by (simp add: line_of_def)
qed

lemma row_of_in_attrs:
  "set cols \<subseteq> fst ` set attrs \<Longrightarrow> set (row_of cols attrs) \<subseteq> snd ` set attrs"
proof
  fix v assume s: "set cols \<subseteq> fst ` set attrs" and "v \<in> set (row_of cols attrs)"
  then obtain c where c: "c \<in> set cols" "v = the (map_of attrs c)"
    by (auto simp: row_of_def)
  with s obtain u where "map_of attrs c = Some u"
    by (cases "map_of attrs c") (auto simp: map_of_eq_None_iff)
  with c show "v \<in> snd ` set attrs"
    by (metis image_eqI map_of_SomeD option.sel snd_conv)
qed

lemma load_row_step:
  assumes "distinct cols" "''participant_id'' \<notin> set cols"
    and "TAB \<notin> set pid" "\<forall>v \<in> set vals. TAB \<notin> set v" "length vals = length cols"
  shows "py_dict (zip (''participant_id'' # cols) (split_on TAB (join_with [TAB] (pid # vals))))
         = (''participant_id'', pid) # zip cols vals"
proof -
  have "split_on TAB (join_with [TAB] (pid # vals)) = pid # vals"
    using assms by (intro split_on_join) auto
  moreover have "distinct (map fst ((''participant_id'', pid) # zip cols vals))"
    using assms by (auto simp: distinct_zipI1 dest: set_zip_leftD)
  ultimately show ?thesis by (simp add: py_dict_distinct)
qed

lemma load_rows_ok:
  assumes "distinct cols" "''participant_id'' \<notin> set cols"
    and "distinct (map fst (acc @ ps))"
    and "\<forall>p \<in> set ps. TAB \<notin> set (fst p) \<and> (\<forall>v \<in> set (row_of cols (snd p)). TAB \<notin> set v)"
  shows "load_rows (''participant_id'' # cols) (map (line_of cols) ps) acc
         = Inr (acc @ map (\<lambda>p. (fst p, zip cols (row_of cols (snd p)))) ps)"
  using assms(3,4)
proof (induction ps arbitrary: acc)
  case Nil
  then show ?case by simp
next
  case (Cons p ps)
  let ?vals = "row_of cols (snd p)"
  have st: "py_dict (zip (''participant_id'' # cols)
               (split_on TAB (join_with [TAB] (fst p # ?vals))))
            = (''participant_id'', fst p) # zip cols ?vals"
    using assms(1,2) Cons.prems(2) by (intro load_row_step) (auto simp: row_of_def)
  have del: "dict_del ((''participant_id'', fst p) # zip cols ?vals) ''participant_id''
             = zip cols ?vals"
    using assms(2) by (intro dict_del_head) (auto dest: set_zip_leftD)
  have new: "dict_set acc (fst p) (zip cols ?vals) = acc @ [(fst p, zip cols ?vals)]"
    using Cons.prems(1) by (intro dict_set_new) auto
  have d: "distinct (map fst ((acc @ [(fst p, zip cols ?vals)]) @ ps))"
    using Cons.prems(1) by simp
  have r: "\<forall>p \<in> set ps. TAB \<notin> set (fst p) \<and> (\<forall>v \<in> set (row_of cols (snd p)). TAB \<notin> set v)"
    using Cons.prems(2) by simp
  show ?case
    using Cons.IH [OF d r]
    by (simp add: line_of_def st del new dict_get_def Let_def)
qed

lemma zip_row_of: "zip cols (row_of cols attrs) = map (\<lambda>c. (c, the (map_of attrs c))) cols"
  by (induction cols) (auto simp: row_of_def)

lemma tsv_safe_participant_id: "tsv_safe ''participant_id''"
  by (simp add: tsv_safe_def TAB_def LF_def CR_def)

lemma tsv_safe_join:
  "\<forall>x \<in> set xs. tsv_safe x \<Longrightarrow> LF \<notin> set (join_with [TAB] xs) \<and> CR \<notin> set (join_with [TAB] xs)"
proof -
  assume a: "\<forall>x \<in> set xs. tsv_safe x"
  have "set (join_with [TAB] xs) \<subseteq> set [TAB] \<union> \<Union> (set ` set xs)" by (rule set_join_with)
  moreover have "TAB \<noteq> LF" "TAB \<noteq> CR" by (simp_all add: TAB_def LF_def CR_def)
  ultimately show ?thesis using a by (auto simp: tsv_safe_def)
qed

lemma table_ok_facts:
  assumes "table_ok ps"
  shows "ps \<noteq> []" "distinct (map fst ps)"
    "''participant_id'' \<notin> set (map fst (snd (hd ps)))"
    "distinct (map fst (snd (hd ps)))"
    "\<forall>p \<in> set ps. set (map fst (snd p)) = set (map fst (snd (hd ps)))
        \<and> distinct (map fst (snd p))
        \<and> tsv_safe (fst p) \<and> (fst p \<noteq> [] \<or> snd p \<noteq> [])
        \<and> (\<forall>cv \<in> set (snd p). tsv_safe (fst cv) \<and> tsv_safe (snd cv))"
    "\<forall>c \<in> set (map fst (snd (hd ps))). tsv_safe c"
proof -
  from assms show ne: "ps \<noteq> []" and "distinct (map fst ps)"
    and "''participant_id'' \<notin> set (map fst (snd (hd ps)))"
    unfolding table_ok_def by blast+
  from assms have la: "list_all (\<lambda>p. distinct (map fst (snd p))
                       \<and> set (map fst (snd p)) = set (map fst (snd (hd ps)))
                       \<and> tsv_safe (fst p) \<and> (fst p \<noteq> [] \<or> snd p \<noteq> [])
                       \<and> list_all (\<lambda>cv. tsv_safe (fst cv) \<and> tsv_safe (snd cv)) (snd p)) ps"
    unfolding table_ok_def by blast
  then show all: "\<forall>p \<in> set ps. set (map fst (snd p)) = set (map fst (snd (hd ps)))
        \<and> distinct (map fst (snd p))
        \<and> tsv_safe (fst p) \<and> (fst p \<noteq> [] \<or> snd p \<noteq> [])
        \<and> (\<forall>cv \<in> set (snd p). tsv_safe (fst cv) \<and> tsv_safe (snd cv))"
    unfolding list_all_iff by blast
  have h: "hd ps \<in> set ps" using ne by simp
  with all show "distinct (map fst (snd (hd ps)))" by blast
  from h all have "\<forall>cv \<in> set (snd (hd ps)). tsv_safe (fst cv)" by blast
  then show "\<forall>c \<in> set (map fst (snd (hd ps))). tsv_safe c" by simp
qed

lemma write_participants_ok:
  assumes "table_ok ps"
  shows "write_participants ps =
         (None, concat (map (\<lambda>l. l @ [LF])
                  (join_with [TAB] (''participant_id'' # map fst (snd (hd ps)))
                   # map (line_of (map fst (snd (hd ps)))) ps)))"
proof -
  note f = table_ok_facts [OF assms]
  have "\<forall>p \<in> set ps. set (map fst (snd (hd ps))) \<subseteq> set (map fst (snd p))"
    using f(5) by blast
  then have "\<forall>p \<in> set ps. set (map fst (snd (hd ps))) \<subseteq> fst ` set (snd p)"
    by simp
  from write_rows_ok [OF this] show ?thesis
    by (simp add: write_participants_def Let_def comp_def)
qed

lemma line_of_safe:
  assumes "table_ok ps" "p \<in> set ps"
  shows "LF \<notin> set (line_of (map fst (snd (hd ps))) p)"
    "CR \<notin> set (line_of (map fst (snd (hd ps))) p)"
    "line_of (map fst (snd (hd ps))) p \<noteq> []"
    "TAB \<notin> set (fst p)"
    "\<forall>v \<in> set (row_of (map fst (snd (hd ps))) (snd p)). TAB \<notin> set v"
proof -
  let ?cols = "map fst (snd (hd ps))"
  note f = table_ok_facts [OF assms(1)]
  from f(5) assms(2) have p: "set (map fst (snd p)) = set ?cols" "tsv_safe (fst p)"
    "fst p \<noteq> [] \<or> snd p \<noteq> []" "\<forall>cv \<in> set (snd p). tsv_safe (fst cv) \<and> tsv_safe (snd cv)"
    by blast+
  have "set ?cols \<subseteq> fst ` set (snd p)" using p(1) by simp
  then have sub: "set (row_of ?cols (snd p)) \<subseteq> snd ` set (snd p)"
    by (rule row_of_in_attrs)
  then have safe: "\<forall>v \<in> set (row_of ?cols (snd p)). tsv_safe v"
    using p(4) by blast
  with p(2) have "\<forall>x \<in> set (fst p # row_of ?cols (snd p)). tsv_safe x" by simp
  from tsv_safe_join [OF this]
  show "LF \<notin> set (line_of ?cols p)" "CR \<notin> set (line_of ?cols p)"
    by (simp_all add: line_of_def)
  show "TAB \<notin> set (fst p)" using p(2) by (simp add: tsv_safe_def)
  show "\<forall>v \<in> set (row_of ?cols (snd p)). TAB \<notin> set v" using safe by (simp add: tsv_safe_def)
  have "row_of ?cols (snd p) = [] \<longleftrightarrow> ?cols = []" by (simp add: row_of_def)
  also have "\<dots> \<longleftrightarrow> set (map fst (snd p)) = {}" by (simp only: p(1) set_empty)
  also have "\<dots> \<longleftrightarrow> snd p = []" by simp
  finally have "row_of ?cols (snd p) = [] \<longleftrightarrow> snd p = []" .
  with p(3) show "line_of ?cols p \<noteq> []"
    by (simp add: line_of_def join_with_Nil_iff)
qed

lemma read_written_participants:
  assumes "table_ok ps"
  shows "read_participants (snd (write_participants ps)) = Inr (loaded_table ps)"
proof -
  let ?cols = "map fst (snd (hd ps))"
  let ?header = "join_with [TAB] (''participant_id'' # ?cols)"
  let ?lines = "map (line_of ?cols) ps"
  let ?content = "concat (map (\<lambda>l. l @ [LF]) (?header # ?lines))"
  note f = table_ok_facts [OF assms]
  have hs: "LF \<notin> set ?header \<and> CR \<notin> set ?header"
    using f(6) tsv_safe_participant_id by (intro tsv_safe_join) auto
  have ls: "\<forall>l \<in> set (?header # ?lines). LF \<notin> set l"
    using hs line_of_safe(1) [OF assms] by auto
  have "CR \<noteq> LF" by (simp add: CR_def LF_def)
  then have cr: "CR \<notin> set ?content"
    using hs line_of_safe(2) [OF assms] by auto
  have rl: "readlines (universal_newlines ?content) = map (\<lambda>l. l @ [LF]) (?header # ?lines)"
    using readlines_lines [OF ls] by (simp only: universal_newlines_id [OF cr])
  have bl: "map butlast (map (\<lambda>l. l @ [LF]) ?lines) = ?lines"
    by (simp add: comp_def)
  have tw: "takeWhile (\<lambda>l. l \<noteq> []) ?lines = ?lines"
    using line_of_safe(3) [OF assms] by (auto simp: takeWhile_eq_all_conv)
  have cols: "split_on TAB ?header = ''participant_id'' # ?cols"
    using f(6) tsv_safe_participant_id by (intro split_on_join) (auto simp: tsv_safe_def)
  have rows: "load_rows (''participant_id'' # ?cols) ?lines []
              = Inr ([] @ map (\<lambda>p. (fst p, zip ?cols (row_of ?cols (snd p)))) ps)"
    using f(2,3,4) line_of_safe(4,5) [OF assms] by (intro load_rows_ok) auto
  have "read_participants ?content = load_rows (''participant_id'' # ?cols) ?lines []"
    unfolding read_participants_def Let_def rl
    by (simp only: list.simps list.sel bl tw butlast_snoc cols list.map)
  then have "read_participants (snd (write_participants ps))
             = Inr (map (\<lambda>p. (fst p, zip ?cols (row_of ?cols (snd p)))) ps)"
    by (simp only: write_participants_ok [OF assms] snd_conv rows append_Nil)
  then show ?thesis
    by (simp only: loaded_table_def zip_row_of)
qed

lemma map_of_loaded_table:
  "map_of (loaded_table ps) k
   = map_option (\<lambda>attrs. map (\<lambda>c. (c, the (map_of attrs c))) (map fst (snd (hd ps))))
       (map_of ps k)"
proof -
  have "loaded_table ps
        = map (\<lambda>(k, v). (k, map (\<lambda>c. (c, the (map_of v c))) (map fst (snd (hd ps))))) ps"
    by (simp add: loaded_table_def case_prod_beta)
  then show ?thesis by (simp only: map_of_map comp_def)
qed

lemma dict_rel_loaded_row:
  fixes attrs :: "(string \<times> 'a) list"
  assumes "set (map fst attrs) = set cols"
  shows "dict_rel (=) attrs (map (\<lambda>c. (c, the (map_of attrs c))) cols)"
proof -
  have eq: "map_of (map (\<lambda>c. (c, the (map_of attrs c))) cols) k = map_of attrs k" for k
  proof (cases "k \<in> set cols")
    case True
    with assms obtain v where v: "map_of attrs k = Some v"
      by (cases "map_of attrs k") (auto simp: map_of_eq_None_iff)
    have "map_of (map (\<lambda>c. (c, f c)) cols) k = Some (f k)" for f :: "string \<Rightarrow> 'a"
      using True by (induction cols) auto
    from this [of "\<lambda>c. the (map_of attrs c)"] v show ?thesis by simp
  next
    case False
    with assms have "map_of attrs k = None" by (auto simp: map_of_eq_None_iff)
    moreover have "map_of (map (\<lambda>c. (c, the (map_of attrs c))) cols) k = None"
      using False by (simp add: map_of_eq_None_iff image_iff comp_def)
    ultimately show ?thesis by simp
  qed
  show ?thesis
    unfolding dict_rel_def list_all_iff option.rel_eq eq by simp
qed

lemma dict_rel_loaded_table:
  assumes "table_ok ps"
  shows "dict_rel (dict_rel (=)) ps (loaded_table ps)"
proof -
  let ?cols = "map fst (snd (hd ps))"
  note f = table_ok_facts [OF assms]
  have "rel_option (dict_rel (=)) (map_of ps k) (map_of (loaded_table ps) k)" for k
  proof (cases "map_of ps k")
    case None
    then show ?thesis by (simp add: map_of_loaded_table)
  next
    case (Some attrs)
    then have "(k, attrs) \<in> set ps" by (rule map_of_SomeD)
    with f(5) have "set (map fst (snd (k, attrs))) = set ?cols" by blast
    then have "set (map fst attrs) = set ?cols" by simp
    then have "dict_rel (=) attrs (map (\<lambda>c. (c, the (map_of attrs c))) ?cols)"
      by (rule dict_rel_loaded_row)
    with Some show ?thesis by (simp add: map_of_loaded_table)
  qed
  then show ?thesis
    unfolding dict_rel_def list_all_iff by blast
qed

lemma dict_get_dict_set:
  "dict_get (dict_set d k v) k' = (if k' = k then Some v else dict_get d k')"
  by (simp add: dict_get_def map_of_dict_set)

lemma dict_get_set_if:
  "dict_get (set_if b k v d) k' = (if b \<and> k' = k then Some v else dict_get d k')"
  by (simp add: set_if_def dict_get_dict_set)

lemma dict_get_set_str:
  "dict_get (set_str x k d) k' =
   (if truthy x \<and> k' = k then Some (JStr (case x of Some s \<Rightarrow> s | None \<Rightarrow> []))
    else dict_get d k')"
  by (simp add: set_str_def dict_get_set_if)

lemma dict_get_set_list:
  "dict_get (set_list xs k d) k' =
   (if xs \<noteq> [] \<and> k' = k then Some (JList (map JStr xs)) else dict_get d k')"
  by (simp add: set_list_def dict_get_set_if)

lemma dict_get_Cons:
  "dict_get ((k, v) # d) k' = (if k' = k then Some v else dict_get d k')"
  by (auto simp: dict_get_def)

lemma dict_get_Nil: "dict_get [] k = None"
  by (simp add: dict_get_def)

lemmas dict_get_simps =
  dict_get_dict_set dict_get_set_if dict_get_set_str dict_get_set_list dict_get_Cons dict_get_Nil

lemma get_str_after:
  assumes "dict_get d k = (if truthy x then Some (JStr (case x of Some s \<Rightarrow> s | None \<Rightarrow> []))
                           else None)"
    and "kept x"
  shows "get_str d k = Inr x"
  using assms by (cases x) (auto simp: get_str_def truthy_def kept_def)

lemma map_raise_as_str: "map_raise as_str (map JStr xs) = Inr xs"
  by (induction xs) (auto simp: as_str_def)

lemma get_str_list_after:
  assumes "dict_get d k = (if xs \<noteq> [] then Some (JList (map JStr xs)) else None)"
  shows "get_str_list d k = Inr xs"
  using assms by (cases "xs = []") (auto simp: get_str_list_def map_raise_as_str)

lemma container_roundtrip:
  assumes "kept (container_type c)" "kept (container_tag c)" "kept (container_uri c)"
  shows "ContainerMetadata_from_dict (Some (ContainerMetadata_to_dict c)) = Inr (Some c)"
proof -
  let ?d = "set_str (container_uri c) ''URI''
             (set_str (container_tag c) ''Tag''
               (set_str (container_type c) ''Type'' []))"
  have t: "get_str ?d ''Type'' = Inr (container_type c)"
    by (rule get_str_after [OF _ assms(1)]) (simp add: dict_get_simps)
  have g: "get_str ?d ''Tag'' = Inr (container_tag c)"
    by (rule get_str_after [OF _ assms(2)]) (simp add: dict_get_simps)
  have u: "get_str ?d ''URI'' = Inr (container_uri c)"
    by (rule get_str_after [OF _ assms(3)]) (simp add: dict_get_simps)
  show ?thesis
    by (simp add: ContainerMetadata_from_dict_def ContainerMetadata_to_dict_def t g u
        bind_raise_def)
qed

lemma generator_roundtrip:
  assumes "generator_ok g"
  shows "GeneratorMetadata_from_dict (GeneratorMetadata_to_dict g) = Inr g"
proof -
  let ?base = "set_str (code_url g) ''CodeURL''
              (set_str (gen_description g) ''Description''
                (set_str (gen_version g) ''Version''
                  [(''Name'', JStr (gen_name g))]))"
  let ?d = "(case container g of
               None \<Rightarrow> (\<lambda>d. d)
             | Some c \<Rightarrow> (\<lambda>d. dict_set d ''Container'' (ContainerMetadata_to_dict c))) ?base"
  from assms have k: "kept (gen_version g)" "kept (gen_description g)" "kept (code_url g)"
    by (simp_all add: generator_ok_def)
  have n: "req_str ?d ''Name'' = Inr (gen_name g)"
    by (cases "container g") (simp_all add: req_str_def dict_get_simps as_str_def)
  have v: "get_str ?d ''Version'' = Inr (gen_version g)"
    by (rule get_str_after [OF _ k(1)]) (cases "container g"; simp add: dict_get_simps)
  have de: "get_str ?d ''Description'' = Inr (gen_description g)"
    by (rule get_str_after [OF _ k(2)]) (cases "container g"; simp add: dict_get_simps)
  have cu: "get_str ?d ''CodeURL'' = Inr (code_url g)"
    by (rule get_str_after [OF _ k(3)]) (cases "container g"; simp add: dict_get_simps)
  have c: "ContainerMetadata_from_dict (dict_get ?d ''Container'') = Inr (container g)"
  proof (cases "container g")
    case None
    then show ?thesis by (simp add: dict_get_simps ContainerMetadata_from_dict_def)
  next
    case (Some c)
    with assms have "kept (container_type c)" "kept (container_tag c)" "kept (container_uri c)"
      by (simp_all add: generator_ok_def)
    from container_roundtrip [OF this] Some show ?thesis by (simp add: dict_get_simps)
  qed
  show ?thesis
    unfolding GeneratorMetadata_from_dict_def GeneratorMetadata_to_dict_def
    by (simp add: n v de cu c bind_raise_def)
qed

lemma source_roundtrip:
  assumes "source_ok s"
  shows "SourceDatasetMetadata_from_dict (SourceDatasetMetadata_to_dict s) = Inr s"
proof -
  let ?d = "set_str (src_version s) ''Version''
             (set_str (src_doi s) ''DOI''
               (set_str (src_url s) ''URL'' []))"
  from assms have k: "kept (src_url s)" "kept (src_doi s)" "kept (src_version s)"
    by (simp_all add: source_ok_def)
  have u: "get_str ?d ''URL'' = Inr (src_url s)"
    by (rule get_str_after [OF _ k(1)]) (simp add: dict_get_simps)
  have i: "get_str ?d ''DOI'' = Inr (src_doi s)"
    by (rule get_str_after [OF _ k(2)]) (simp add: dict_get_simps)
  have v: "get_str ?d ''Version'' = Inr (src_version s)"
    by (rule get_str_after [OF _ k(3)]) (simp add: dict_get_simps)
  show ?thesis
    by (simp add: SourceDatasetMetadata_from_dict_def SourceDatasetMetadata_to_dict_def u i v
        bind_raise_def)
qed

lemma map_raise_roundtrip:
  "list_all (\<lambda>x. dec (enc x) = Inr x) xs \<Longrightarrow> map_raise dec (map enc xs) = Inr xs"
  by (induction xs) auto

lemma generators_roundtrip:
  "list_all generator_ok gs \<Longrightarrow>
   map_raise GeneratorMetadata_from_dict (map GeneratorMetadata_to_dict gs) = Inr gs"
  by (rule map_raise_roundtrip) (simp add: list_all_iff generator_roundtrip)

lemma sources_roundtrip:
  "list_all source_ok ss \<Longrightarrow>
   map_raise SourceDatasetMetadata_from_dict (map SourceDatasetMetadata_to_dict ss) = Inr ss"
  by (rule map_raise_roundtrip) (simp add: list_all_iff source_roundtrip)

lemma description_lookups:
  fixes ds :: bids_dataset
  defines "D \<equiv> (case description_dict ds of JDict d \<Rightarrow> d | _ \<Rightarrow> [])"
  shows "description_dict ds = JDict D"
    and "dict_get D ''Name'' = Some (JStr (bids_name ds))"
    and "dict_get D ''BIDSVersion'' = Some (JStr (bids_version ds))"
    and "dict_get D ''DatasetType'' =
           (if truthy (bids_type ds)
            then Some (JStr (case bids_type ds of Some s \<Rightarrow> s | None \<Rightarrow> [])) else None)"
    and "dict_get D ''Licence'' =
           (if truthy (license ds)
            then Some (JStr (case license ds of Some s \<Rightarrow> s | None \<Rightarrow> [])) else None)"
    and "dict_get D ''Authors'' =
           (if authors ds \<noteq> [] then Some (JList (map JStr (authors ds))) else None)"
    and "dict_get D ''Acknowledgements'' =
           (if truthy (acknowledgements ds)
            then Some (JStr (case acknowledgements ds of Some s \<Rightarrow> s | None \<Rightarrow> [])) else None)"
    and "dict_get D ''HowToAcknowledge'' =
           (if truthy (how_to_acknowledge ds)
            then Some (JStr (case how_to_acknowledge ds of Some s \<Rightarrow> s | None \<Rightarrow> []))
            else None)"
    and "dict_get D ''Funding'' =
           (if funding ds \<noteq> [] then Some (JList (map JStr (funding ds))) else None)"
    and "dict_get D ''EthicsApprovals'' =
           (if ethics_approvals ds \<noteq> []
            then Some (JList (map JStr (ethics_approvals ds))) else None)"
    and "dict_get D ''ReferencesAndLinks'' =
           (if references ds \<noteq> [] then Some (JList (map JStr (references ds))) else None)"
    and "dict_get D ''DatasetDOI'' =
           (if truthy (doi ds)
            then Some (JStr (case doi ds of Some s \<Rightarrow> s | None \<Rightarrow> [])) else None)"
    and "dict_get D ''GeneratedBy'' =
           (if bids_type ds = Some ''derivative''
            then Some (JList (map GeneratorMetadata_to_dict (generated_by ds))) else None)"
    and "dict_get D ''sourceDatasets'' =
           (if sources ds \<noteq> []
            then Some (JList (map SourceDatasetMetadata_to_dict (sources ds))) else None)"
  unfolding D_def description_dict_def by (simp_all add: dict_get_simps)

lemma save_metadata_ok:
  assumes "table_ok (participants ds)"
  shows "save_metadata ds fs =
         (None, fs\<lparr>description_json := Some (description_dict ds),
                   participants_tsv := Some (snd (write_participants (participants ds))),
                   readme_file := (case readme ds of None \<Rightarrow> readme_file fs
                                   | Some r \<Rightarrow> Some r)\<rparr>)"
proof -
  have ne: "participants ds \<noteq> []" using assms by (simp add: table_ok_def)
  obtain t where w: "write_participants (participants ds) = (None, t)"
    using write_participants_ok [OF assms] by blast
  show ?thesis
    by (cases "readme ds") (simp_all add: save_metadata_def Let_def ne w)
qed

lemma load_saved_metadata:
  assumes ok: "metadata_ok ds fs"
  shows "BidsDataset_load (snd (save_metadata ds fs))
         = Inr (ds\<lparr>participants := loaded_table (participants ds)\<rparr>)"
proof -
  define D where "D = (case description_dict ds of JDict d \<Rightarrow> d | _ \<Rightarrow> [])"
  note L = description_lookups [of ds, folded D_def]
  from ok have k: "kept (bids_type ds)" "kept (license ds)" "kept (acknowledgements ds)"
      "kept (how_to_acknowledge ds)" "kept (doi ds)"
    and gs: "list_all generator_ok (generated_by ds)"
    and ss: "list_all source_ok (sources ds)"
    and der: "bids_type ds = Some ''derivative'' \<or> generated_by ds = []"
    and tb: "table_ok (participants ds)"
    and rd: "case readme ds of None \<Rightarrow> readme_file fs = None | Some r \<Rightarrow> CR \<notin> set r"
    unfolding metadata_ok_def by blast+
  let ?fs = "fs\<lparr>description_json := Some (JDict D),
                   participants_tsv := Some (snd (write_participants (participants ds))),
                   readme_file := (case readme ds of None \<Rightarrow> readme_file fs
                                   | Some r \<Rightarrow> Some r)\<rparr>"
  have sv: "snd (save_metadata ds fs) = ?fs"
    by (simp add: save_metadata_ok [OF tb] L(1))
  have nm: "req_str D ''Name'' = Inr (bids_name ds)"
    by (simp add: req_str_def L(2) as_str_def)
  have bv: "req_str D ''BIDSVersion'' = Inr (bids_version ds)"
    by (simp add: req_str_def L(3) as_str_def)
  have bt: "get_str D ''DatasetType'' = Inr (bids_type ds)"
    by (rule get_str_after [OF L(4) k(1)])
  have li: "get_str D ''Licence'' = Inr (license ds)"
    by (rule get_str_after [OF L(5) k(2)])
  have au: "get_str_list D ''Authors'' = Inr (authors ds)"
    by (rule get_str_list_after [OF L(6)])
  have ac: "get_str D ''Acknowledgements'' = Inr (acknowledgements ds)"
    by (rule get_str_after [OF L(7) k(3)])
  have ha: "get_str D ''HowToAcknowledge'' = Inr (how_to_acknowledge ds)"
    by (rule get_str_after [OF L(8) k(4)])
  have fu: "get_str_list D ''Funding'' = Inr (funding ds)"
    by (rule get_str_list_after [OF L(9)])
  have ea: "get_str_list D ''EthicsApprovals'' = Inr (ethics_approvals ds)"
    by (rule get_str_list_after [OF L(10)])
  have re: "get_str_list D ''ReferencesAndLinks'' = Inr (references ds)"
    by (rule get_str_list_after [OF L(11)])
  have di: "get_str D ''DatasetDOI'' = Inr (doi ds)"
    by (rule get_str_after [OF L(12) k(5)])
  have gb: "(if bids_type ds = Some ''derivative'' then
               (case dict_get D ''GeneratedBy'' of
                  None \<Rightarrow> Inl ArcanaError
                | Some v \<Rightarrow>
                    bind_raise (py_iter v) (map_raise GeneratorMetadata_from_dict))
             else Inr (generated_by default_dataset)) = Inr (generated_by ds)"
  proof (cases "bids_type ds = Some ''derivative''")
    case True
    then show ?thesis
      by (simp add: L(13) py_iter_def bind_raise_def generators_roundtrip [OF gs])
  next
    case False
    with der have "generated_by ds = []" by blast
    with False show ?thesis by (simp add: default_dataset_def)
  qed
  have so: "(case dict_get D ''sourceDatasets'' of
               None \<Rightarrow> Inr (sources default_dataset)
             | Some v \<Rightarrow> bind_raise (py_iter v) (map_raise SourceDatasetMetadata_from_dict))
            = Inr (sources ds)"
  proof (cases "sources ds = []")
    case True
    then show ?thesis by (simp add: L(14) default_dataset_def)
  next
    case False
    then show ?thesis
      by (simp add: L(14) py_iter_def bind_raise_def sources_roundtrip [OF ss])
  qed
  have ps: "read_participants (snd (write_participants (participants ds)))
            = Inr (loaded_table (participants ds))"
    by (rule read_written_participants [OF tb])
  have rm: "map_option universal_newlines
              (case readme ds of None \<Rightarrow> readme_file fs | Some r \<Rightarrow> Some r) = readme ds"
    using rd by (cases "readme ds") (simp_all add: universal_newlines_id)
  have "load_metadata ?fs default_dataset
        = Inr \<lparr>bids_name = bids_name ds, participants = loaded_table (participants ds),
               acknowledgements = acknowledgements ds, authors = authors ds,
               bids_version = bids_version ds, doi = doi ds, funding = funding ds,
               bids_type = bids_type ds, license = license ds,
               references = references ds, how_to_acknowledge = how_to_acknowledge ds,
               ethics_approvals = ethics_approvals ds,
               generated_by = generated_by ds, sources = sources ds,
               readme = readme ds\<rparr>"
    unfolding load_metadata_def
    by (simp add: nm bv bt li au ac ha fu ea re di gb so ps rm bind_raise_def
        del: universal_newlines.simps)
  then show ?thesis
    by (simp add: BidsDataset_load_def sv)
qed

text \<open>
  C4, as stated, fails. Each of these datasets has a participant, is saved to an empty
  directory and loaded back, and the loaded dataset differs: a licence that is the empty
  string comes back as \<^verbatim>\<open>None\<close>; a column that the first participant does not have is
  lost; generator metadata of a dataset that is not of type \<^verbatim>\<open>derivative\<close> is lost; a value
  with a tab is cut at the tab; a carriage return in the readme comes back as a newline.
\<close>

theorem bids_roundtrip_counterexample:
  "(case BidsDataset_load (snd (save_metadata
           (default_dataset\<lparr>participants := [(''sub-1'', [])], license := Some []\<rparr>)
           \<lparr>description_json = None, participants_tsv = None, readme_file = None\<rparr>)) of
      Inl e \<Rightarrow> False
    | Inr d \<Rightarrow> license d = None
        \<and> \<not> dataset_eq (default_dataset\<lparr>participants := [(''sub-1'', [])], license := Some []\<rparr>) d)
   \<and> (case BidsDataset_load (snd (save_metadata
           (default_dataset\<lparr>participants := [(''sub-1'', []), (''sub-2'', [(''age'', ''30'')])]\<rparr>)
           \<lparr>description_json = None, participants_tsv = None, readme_file = None\<rparr>)) of
      Inl e \<Rightarrow> False
    | Inr d \<Rightarrow> participants d = [(''sub-1'', []), (''sub-2'', [])]
        \<and> \<not> dataset_eq (default_dataset\<lparr>participants :=
               [(''sub-1'', []), (''sub-2'', [(''age'', ''30'')])]\<rparr>) d)
   \<and> (case BidsDataset_load (snd (save_metadata
           (default_dataset\<lparr>participants := [(''sub-1'', [])], bids_type := Some ''raw'',
              generated_by := [\<lparr>gen_name = ''arcana'', gen_version = None,
                                gen_description = None, code_url = None, container = None\<rparr>]\<rparr>)
           \<lparr>description_json = None, participants_tsv = None, readme_file = None\<rparr>)) of
      Inl e \<Rightarrow> False
    | Inr d \<Rightarrow> generated_by d = []
        \<and> \<not> dataset_eq (default_dataset\<lparr>participants := [(''sub-1'', [])],
              bids_type := Some ''raw'',
              generated_by := [\<lparr>gen_name = ''arcana'', gen_version = None,
                                gen_description = None, code_url = None, container = None\<rparr>]\<rparr>) d)
   \<and> (case BidsDataset_load (snd (save_metadata
           (default_dataset\<lparr>participants := [(''sub-1'', [(''note'', [CHR ''a'', TAB, CHR ''b''])])]\<rparr>)
           \<lparr>description_json = None, participants_tsv = None, readme_file = None\<rparr>)) of
      Inl e \<Rightarrow> False
    | Inr d \<Rightarrow> participants d = [(''sub-1'', [(''note'', ''a'')])]
        \<and> \<not> dataset_eq (default_dataset\<lparr>participants :=
               [(''sub-1'', [(''note'', [CHR ''a'', TAB, CHR ''b''])])]\<rparr>) d)
   \<and> (case BidsDataset_load (snd (save_metadata
           (default_dataset\<lparr>participants := [(''sub-1'', [])],
              readme := Some [CHR ''a'', CR, CHR ''b'']\<rparr>)
           \<lparr>description_json = None, participants_tsv = None, readme_file = None\<rparr>)) of
      Inl e \<Rightarrow> False
    | Inr d \<Rightarrow> readme d = Some [CHR ''a'', LF, CHR ''b'']
        \<and> \<not> dataset_eq (default_dataset\<lparr>participants := [(''sub-1'', [])],
              readme := Some [CHR ''a'', CR, CHR ''b'']\<rparr>) d)"
  by code_simp

text \<open>
  C4, amended. For every dataset and directory that satisfy \<open>metadata_ok\<close> (the optional
  strings are \<^verbatim>\<open>None\<close> or not empty, generators are given only for a dataset of type
  \<^verbatim>\<open>derivative\<close>, the participants table is not empty and is representable in the file, the
  readme has no carriage return and no \<^verbatim>\<open>README\<close> is left from before when it is \<^verbatim>\<open>None\<close>),
  \<open>save_metadata\<close> raises nothing, \<^verbatim>\<open>BidsDataset.load\<close> of the directory returns a dataset, and
  that dataset is equal by value to the one saved.
\<close>

theorem bids_metadata_roundtrip:
  assumes "metadata_ok ds fs"
  shows "\<exists>fs' ds'. save_metadata ds fs = (None, fs') \<and> BidsDataset_load fs' = Inr ds'
           \<and> dataset_eq ds ds'"
proof -
  from assms have tb: "table_ok (participants ds)" unfolding metadata_ok_def by blast
  let ?ds' = "ds\<lparr>participants := loaded_table (participants ds)\<rparr>"
  have s: "save_metadata ds fs = (None, snd (save_metadata ds fs))"
    by (simp add: save_metadata_ok [OF tb])
  have l: "BidsDataset_load (snd (save_metadata ds fs)) = Inr ?ds'"
    by (rule load_saved_metadata [OF assms])
  have e: "dataset_eq ds ?ds'"
    by (simp add: dataset_eq_def dict_rel_loaded_table [OF tb])
  from s l e show ?thesis by blast
qed

theorem bids_metadata_roundtrip_witness:
  "metadata_ok
     (default_dataset\<lparr>bids_name := ''bids-dataset'',
        participants := [(''sub-1'', [(''age'', ''30''), (''sex'', ''F'')]),
                         (''sub-2'', [(''sex'', ''M''), (''age'', ''41'')])],
        authors := [''Dumm Y. Author'', ''Another D. Author''],
        generated_by := [\<lparr>gen_name = ''arcana'', gen_version = Some ''0.1'',
                          gen_description = Some ''created from scratch'',
                          code_url = Some ''http://arcana.readthedocs.io'', container = None\<rparr>],
        readme := Some ''A dummy readme''\<rparr>)
     \<lparr>description_json = None, participants_tsv = None, readme_file = None\<rparr>
   \<and> (\<exists>fs' ds'. save_metadata
     (default_dataset\<lparr>bids_name := ''bids-dataset'',
        participants := [(''sub-1'', [(''age'', ''30''), (''sex'', ''F'')]),
                         (''sub-2'', [(''sex'', ''M''), (''age'', ''41'')])],
        authors := [''Dumm Y. Author'', ''Another D. Author''],
        generated_by := [\<lparr>gen_name = ''arcana'', gen_version = Some ''0.1'',
                          gen_description = Some ''created from scratch'',
                          code_url = Some ''http://arcana.readthedocs.io'', container = None\<rparr>],
        readme := Some ''A dummy readme''\<rparr>)
     \<lparr>description_json = None, participants_tsv = None, readme_file = None\<rparr> = (None, fs')
     \<and> BidsDataset_load fs' = Inr ds'
     \<and> dataset_eq
     (default_dataset\<lparr>bids_name := ''bids-dataset'',
        participants := [(''sub-1'', [(''age'', ''30''), (''sex'', ''F'')]),
                         (''sub-2'', [(''sex'', ''M''), (''age'', ''41'')])],
        authors := [''Dumm Y. Author'', ''Another D. Author''],
        generated_by := [\<lparr>gen_name = ''arcana'', gen_version = Some ''0.1'',
                          gen_description = Some ''created from scratch'',
                          code_url = Some ''http://arcana.readthedocs.io'', container = None\<rparr>],
        readme := Some ''A dummy readme''\<rparr>) ds')"
proof -
  let ?ds = "default_dataset\<lparr>bids_name := ''bids-dataset'',
        participants := [(''sub-1'', [(''age'', ''30''), (''sex'', ''F'')]),
                         (''sub-2'', [(''sex'', ''M''), (''age'', ''41'')])],
        authors := [''Dumm Y. Author'', ''Another D. Author''],
        generated_by := [\<lparr>gen_name = ''arcana'', gen_version = Some ''0.1'',
                          gen_description = Some ''created from scratch'',
                          code_url = Some ''http://arcana.readthedocs.io'', container = None\<rparr>],
        readme := Some ''A dummy readme''\<rparr>"
  let ?fs = "\<lparr>description_json = None, participants_tsv = None, readme_file = None\<rparr>"
  have ok: "metadata_ok ?ds ?fs" by code_simp
  from bids_metadata_roundtrip [OF ok] ok show ?thesis by blast
qed

end
